theory Spec2Isabelle
  imports Complex_Main
begin

section \<open>Errors and the error handler\<close>

text \<open>
  The exceptions that the modelled code can raise.  The first five are the
  \<open>AppError\<close> subclasses of \<open>errorHandler.js\<close> (with their message); the two
  JWT errors are raised by the \<open>jsonwebtoken\<close> library; \<open>ReferenceError\<close> and
  \<open>TypeError\<close> are the JavaScript runtime errors for an unbound identifier and for
  calling something that is not a function; \<open>RedisError\<close> is any failure of the
  redis client; \<open>PrismaError\<close> carries the Prisma error code.
\<close>

datatype error =
    ValidationError string
  | AuthenticationError string
  | AuthorizationError string
  | NotFoundError string
  | ConflictError string
  | JsonWebTokenError
  | TokenExpiredError
  | ReferenceError string
  | TypeError string
  | RedisError
  | PrismaError string

text \<open>The HTTP status that \<open>errorHandler\<close> answers with, in the order of its tests.\<close>

fun errorHandler :: "error \<Rightarrow> nat" where
  "errorHandler (PrismaError code) =
     (if code = ''P2002'' then 409
      else if code = ''P2003'' then 400
      else if code = ''P2025'' then 404
      else 500)"
| "errorHandler JsonWebTokenError = 401"
| "errorHandler TokenExpiredError = 401"
| "errorHandler (ValidationError m) = 400"
| "errorHandler (AuthenticationError m) = 401"
| "errorHandler (AuthorizationError m) = 403"
| "errorHandler (NotFoundError m) = 404"
| "errorHandler (ConflictError m) = 409"
| "errorHandler (ReferenceError m) = 500"
| "errorHandler (TypeError m) = 500"
| "errorHandler RedisError = 500"

section \<open>The relational store\<close>

text \<open>
  The tables of the migration that the claims touch.  User ids are \<open>TEXT\<close>; the
  ids of token and book rows are generated by the client library and are modelled
  by a counter \<open>nextId\<close>.  Timestamps are milliseconds since the epoch.
\<close>

datatype token_type = EMAIL_VERIFICATION | PASSWORD_RESET

record user_row =
  u_id :: string
  u_name :: string
  u_email :: string
  u_passwordHash :: string
  u_isAdmin :: bool

record verification_token =
  vt_id :: nat
  vt_userId :: string
  vt_token :: string
  vt_type :: token_type
  vt_expiresAt :: nat
  vt_usedAt :: "nat option"

record password_reset_token =
  pr_id :: nat
  pr_userId :: string
  pr_token :: string
  pr_expiresAt :: nat
  pr_usedAt :: "nat option"

record book_row =
  b_id :: nat
  b_title :: string
  b_author :: string
  b_description :: string
  b_thumbnailUrl :: "string option"
  b_rating :: "rat option"
  b_createdBy :: string

record db =
  users :: "user_row list"
  verificationTokens :: "verification_token list"
  passwordResetTokens :: "password_reset_token list"
  books :: "book_row list"
  nextId :: nat

definition findUser :: "db \<Rightarrow> string \<Rightarrow> user_row option" where
  "findUser d uid = find (\<lambda>u. u_id u = uid) (users d)"

section \<open>TokenService\<close>

subsection \<open>Issuing tokens\<close>

text \<open>
  \<open>createEmailVerificationToken\<close>: \<open>deleteMany\<close> on the user's rows of type
  \<open>EMAIL_VERIFICATION\<close>, then \<open>create\<close>.  The random token string
  (\<open>generateToken\<close>) is the parameter \<open>tok\<close>.  \<open>create\<close> fails with P2002 when the
  token string is already in the table (unique index) and with P2003 when the user
  does not exist (foreign key); the two statements are not in a transaction, so the
  deletion stays when \<open>create\<close> fails.
\<close>

definition createEmailVerificationToken ::
  "db \<Rightarrow> nat \<Rightarrow> string \<Rightarrow> string \<Rightarrow> (error + (verification_token \<times> user_row)) \<times> db" where
  "createEmailVerificationToken d now tok userId =
     (let expiresAt = now + 24 * 60 * 60 * 1000;
          d1 = d\<lparr>verificationTokens :=
                  filter (\<lambda>r. \<not> (vt_userId r = userId \<and> vt_type r = EMAIL_VERIFICATION))
                         (verificationTokens d)\<rparr>
      in if \<exists>r \<in> set (verificationTokens d1). vt_token r = tok
         then (Inl (PrismaError ''P2002''), d1)
         else case findUser d1 userId of
                None \<Rightarrow> (Inl (PrismaError ''P2003''), d1)
              | Some u \<Rightarrow>
                  (let row = \<lparr>vt_id = nextId d1, vt_userId = userId, vt_token = tok,
                              vt_type = EMAIL_VERIFICATION, vt_expiresAt = expiresAt,
                              vt_usedAt = None\<rparr>
                   in (Inr (row, u),
                       d1\<lparr>verificationTokens := verificationTokens d1 @ [row],
                          nextId := Suc (nextId d1)\<rparr>)))"

text \<open>\<open>createPasswordResetToken\<close>: the same on the table of reset tokens, one hour.\<close>

definition createPasswordResetToken ::
  "db \<Rightarrow> nat \<Rightarrow> string \<Rightarrow> string \<Rightarrow> (error + (password_reset_token \<times> user_row)) \<times> db" where
  "createPasswordResetToken d now tok userId =
     (let expiresAt = now + 60 * 60 * 1000;
          d1 = d\<lparr>passwordResetTokens :=
                  filter (\<lambda>r. \<not> (pr_userId r = userId)) (passwordResetTokens d)\<rparr>
      in if \<exists>r \<in> set (passwordResetTokens d1). pr_token r = tok
         then (Inl (PrismaError ''P2002''), d1)
         else case findUser d1 userId of
                None \<Rightarrow> (Inl (PrismaError ''P2003''), d1)
              | Some u \<Rightarrow>
                  (let row = \<lparr>pr_id = nextId d1, pr_userId = userId, pr_token = tok,
                              pr_expiresAt = expiresAt, pr_usedAt = None\<rparr>
                   in (Inr (row, u),
                       d1\<lparr>passwordResetTokens := passwordResetTokens d1 @ [row],
                          nextId := Suc (nextId d1)\<rparr>)))"

subsection \<open>Consuming tokens\<close>

text \<open>
  The two statements of \<open>verifyEmailVerificationToken\<close>: the \<open>findFirst\<close> with
  its four conditions and the joined user, and the \<open>update\<close> whose \<open>where\<close> names
  the row id only.  \<open>update\<close> raises P2025 when no row has that id.
\<close>

definition vt_findFirst :: "db \<Rightarrow> nat \<Rightarrow> string \<Rightarrow> verification_token option" where
  "vt_findFirst d now tok =
     find (\<lambda>r. vt_token r = tok \<and> vt_type r = EMAIL_VERIFICATION \<and> vt_usedAt r = None
                \<and> now < vt_expiresAt r)
          (verificationTokens d)"

definition vt_update_usedAt :: "db \<Rightarrow> nat \<Rightarrow> nat \<Rightarrow> error + db" where
  "vt_update_usedAt d rid now =
     (if \<exists>r \<in> set (verificationTokens d). vt_id r = rid
      then Inr (d\<lparr>verificationTokens :=
                    map (\<lambda>r. if vt_id r = rid then r\<lparr>vt_usedAt := Some now\<rparr> else r)
                        (verificationTokens d)\<rparr>)
      else Inl (PrismaError ''P2025''))"

definition verifyEmailVerificationToken ::
  "db \<Rightarrow> nat \<Rightarrow> string \<Rightarrow> (error + user_row option) \<times> db" where
  "verifyEmailVerificationToken d now tok =
     (case vt_findFirst d now tok of
        None \<Rightarrow> (Inr None, d)
      | Some r \<Rightarrow>
          (case vt_update_usedAt d (vt_id r) now of
             Inl e \<Rightarrow> (Inl e, d)
           | Inr d' \<Rightarrow> (Inr (findUser d (vt_userId r)), d')))"

definition pr_findFirst :: "db \<Rightarrow> nat \<Rightarrow> string \<Rightarrow> password_reset_token option" where
  "pr_findFirst d now tok =
     find (\<lambda>r. pr_token r = tok \<and> pr_usedAt r = None \<and> now < pr_expiresAt r)
          (passwordResetTokens d)"

definition pr_update_usedAt :: "db \<Rightarrow> nat \<Rightarrow> nat \<Rightarrow> error + db" where
  "pr_update_usedAt d rid now =
     (if \<exists>r \<in> set (passwordResetTokens d). pr_id r = rid
      then Inr (d\<lparr>passwordResetTokens :=
                    map (\<lambda>r. if pr_id r = rid then r\<lparr>pr_usedAt := Some now\<rparr> else r)
                        (passwordResetTokens d)\<rparr>)
      else Inl (PrismaError ''P2025''))"

definition verifyPasswordResetToken ::
  "db \<Rightarrow> nat \<Rightarrow> string \<Rightarrow> (error + user_row option) \<times> db" where
  "verifyPasswordResetToken d now tok =
     (case pr_findFirst d now tok of
        None \<Rightarrow> (Inr None, d)
      | Some r \<Rightarrow>
          (case pr_update_usedAt d (pr_id r) now of
             Inl e \<Rightarrow> (Inl e, d)
           | Inr d' \<Rightarrow> (Inr (findUser d (pr_userId r)), d')))"

subsection \<open>Sweeping and revoking\<close>

definition cleanupExpiredTokens :: "db \<Rightarrow> nat \<Rightarrow> (nat \<times> nat \<times> nat) \<times> db" where
  "cleanupExpiredTokens d now =
     (let dv = length (filter (\<lambda>r. vt_expiresAt r < now) (verificationTokens d));
          dp = length (filter (\<lambda>r. pr_expiresAt r < now) (passwordResetTokens d))
      in ((dv, dp, dv + dp),
          d\<lparr>verificationTokens := filter (\<lambda>r. \<not> vt_expiresAt r < now) (verificationTokens d),
            passwordResetTokens := filter (\<lambda>r. \<not> pr_expiresAt r < now) (passwordResetTokens d)\<rparr>))"

definition revokeAllUserTokens :: "db \<Rightarrow> nat \<Rightarrow> string \<Rightarrow> (nat \<times> nat \<times> nat) \<times> db" where
  "revokeAllUserTokens d now userId =
     (let rv = length (filter (\<lambda>r. vt_userId r = userId \<and> vt_usedAt r = None)
                              (verificationTokens d));
          rp = length (filter (\<lambda>r. pr_userId r = userId \<and> pr_usedAt r = None)
                              (passwordResetTokens d))
      in ((rv, rp, rv + rp),
          d\<lparr>verificationTokens :=
               map (\<lambda>r. if vt_userId r = userId \<and> vt_usedAt r = None
                         then r\<lparr>vt_usedAt := Some now\<rparr> else r) (verificationTokens d),
            passwordResetTokens :=
               map (\<lambda>r. if pr_userId r = userId \<and> pr_usedAt r = None
                         then r\<lparr>pr_usedAt := Some now\<rparr> else r) (passwordResetTokens d)\<rparr>))"

subsection \<open>Live tokens\<close>

text \<open>
  A token is live at time \<open>now\<close> when it is unused and unexpired.  \<open>live_count\<close>
  counts the live tokens of kind \<open>k\<close> that user \<open>u\<close> owns: email verification tokens
  are the rows of that type in \<open>verificationTokens\<close>, reset tokens the rows of
  \<open>passwordResetTokens\<close>.
\<close>

definition vt_live :: "nat \<Rightarrow> verification_token \<Rightarrow> bool" where
  "vt_live now r = (vt_usedAt r = None \<and> now < vt_expiresAt r)"

definition pr_live :: "nat \<Rightarrow> password_reset_token \<Rightarrow> bool" where
  "pr_live now r = (pr_usedAt r = None \<and> now < pr_expiresAt r)"

definition live_count :: "db \<Rightarrow> nat \<Rightarrow> string \<Rightarrow> token_type \<Rightarrow> nat" where
  "live_count d now u k =
     (case k of
        EMAIL_VERIFICATION \<Rightarrow>
          length (filter (\<lambda>r. vt_userId r = u \<and> vt_type r = EMAIL_VERIFICATION \<and> vt_live now r)
                         (verificationTokens d))
      | PASSWORD_RESET \<Rightarrow>
          length (filter (\<lambda>r. pr_userId r = u \<and> pr_live now r) (passwordResetTokens d)))"

definition at_most_one_live :: "db \<Rightarrow> nat \<Rightarrow> bool" where
  "at_most_one_live d now = (\<forall>u k. live_count d now u k \<le> 1)"

subsection \<open>The statements of the token store\<close>

text \<open>
  Every function of \<open>TokenService\<close> is a sequence of awaited Prisma statements, and
  none runs inside a transaction: the statements of two requests may interleave.
  \<open>token_stmt\<close> lists the statements that write, with the values they carry (the
  expiry computed before \<open>create\<close>, the time written by an \<open>update\<close>); a statement
  that raises leaves the tables as they are.
\<close>

datatype token_stmt =
    VtDeleteMany string
  | VtCreate string string nat
  | VtUpdateUsed nat nat
  | VtDeleteExpired nat
  | VtRevoke string nat
  | PrDeleteMany string
  | PrCreate string string nat
  | PrUpdateUsed nat nat
  | PrDeleteExpired nat
  | PrRevoke string nat

fun exec_stmt :: "db \<Rightarrow> token_stmt \<Rightarrow> db" where
  "exec_stmt d (VtDeleteMany u) =
     d\<lparr>verificationTokens :=
         filter (\<lambda>r. \<not> (vt_userId r = u \<and> vt_type r = EMAIL_VERIFICATION))
                (verificationTokens d)\<rparr>"
| "exec_stmt d (VtCreate tok u ex) =
     (if (\<exists>r \<in> set (verificationTokens d). vt_token r = tok) \<or> findUser d u = None then d
      else d\<lparr>verificationTokens := verificationTokens d @
                 [\<lparr>vt_id = nextId d, vt_userId = u, vt_token = tok,
                   vt_type = EMAIL_VERIFICATION, vt_expiresAt = ex, vt_usedAt = None\<rparr>],
             nextId := Suc (nextId d)\<rparr>)"
| "exec_stmt d (VtUpdateUsed rid now) =
     (case vt_update_usedAt d rid now of Inl e \<Rightarrow> d | Inr d' \<Rightarrow> d')"
| "exec_stmt d (VtDeleteExpired now) =
     d\<lparr>verificationTokens := filter (\<lambda>r. \<not> vt_expiresAt r < now) (verificationTokens d)\<rparr>"
| "exec_stmt d (VtRevoke u now) =
     d\<lparr>verificationTokens :=
         map (\<lambda>r. if vt_userId r = u \<and> vt_usedAt r = None
                   then r\<lparr>vt_usedAt := Some now\<rparr> else r) (verificationTokens d)\<rparr>"
| "exec_stmt d (PrDeleteMany u) =
     d\<lparr>passwordResetTokens := filter (\<lambda>r. \<not> (pr_userId r = u)) (passwordResetTokens d)\<rparr>"
| "exec_stmt d (PrCreate tok u ex) =
     (if (\<exists>r \<in> set (passwordResetTokens d). pr_token r = tok) \<or> findUser d u = None then d
      else d\<lparr>passwordResetTokens := passwordResetTokens d @
                 [\<lparr>pr_id = nextId d, pr_userId = u, pr_token = tok,
                   pr_expiresAt = ex, pr_usedAt = None\<rparr>],
             nextId := Suc (nextId d)\<rparr>)"
| "exec_stmt d (PrUpdateUsed rid now) =
     (case pr_update_usedAt d rid now of Inl e \<Rightarrow> d | Inr d' \<Rightarrow> d')"
| "exec_stmt d (PrDeleteExpired now) =
     d\<lparr>passwordResetTokens := filter (\<lambda>r. \<not> pr_expiresAt r < now) (passwordResetTokens d)\<rparr>"
| "exec_stmt d (PrRevoke u now) =
     d\<lparr>passwordResetTokens :=
         map (\<lambda>r. if pr_userId r = u \<and> pr_usedAt r = None
                   then r\<lparr>pr_usedAt := Some now\<rparr> else r) (passwordResetTokens d)\<rparr>"

definition exec_stmts :: "db \<Rightarrow> token_stmt list \<Rightarrow> db" where
  "exec_stmts d ss = foldl exec_stmt d ss"

text \<open>The two statements of one call of \<open>issue\<close>, started at time \<open>t\<close>.\<close>

definition issue_stmts :: "nat \<Rightarrow> string \<Rightarrow> string \<Rightarrow> token_type \<Rightarrow> token_stmt list" where
  "issue_stmts t tok u k =
     (case k of
        EMAIL_VERIFICATION \<Rightarrow> [VtDeleteMany u, VtCreate tok u (t + 24 * 60 * 60 * 1000)]
      | PASSWORD_RESET \<Rightarrow> [PrDeleteMany u, PrCreate tok u (t + 60 * 60 * 1000)])"

text \<open>
  A \<open>create\<close> that runs while its user holds no live token of that kind, as it does
  right after the \<open>deleteMany\<close> of its own call; the other statements need nothing.
\<close>

definition stmt_safe :: "db \<Rightarrow> nat \<Rightarrow> token_stmt \<Rightarrow> bool" where
  "stmt_safe d now s =
     (case s of
        VtCreate tok u ex \<Rightarrow> live_count d now u EMAIL_VERIFICATION = 0
      | PrCreate tok u ex \<Rightarrow> live_count d now u PASSWORD_RESET = 0
      | _ \<Rightarrow> True)"

subsection \<open>The store's two operations by kind\<close>

text \<open>
  \<open>issue\<close> and \<open>consume\<close> select the function of the token's kind.  \<open>issue\<close>
  returns the token string, its expiry and the joined user.
\<close>

definition issue ::
  "db \<Rightarrow> nat \<Rightarrow> string \<Rightarrow> string \<Rightarrow> token_type
     \<Rightarrow> (error + (string \<times> nat \<times> user_row)) \<times> db" where
  "issue d now tok userId k =
     (case k of
        EMAIL_VERIFICATION \<Rightarrow>
          (case createEmailVerificationToken d now tok userId of
             (Inl e, d') \<Rightarrow> (Inl e, d')
           | (Inr (row, u), d') \<Rightarrow> (Inr (vt_token row, vt_expiresAt row, u), d'))
      | PASSWORD_RESET \<Rightarrow>
          (case createPasswordResetToken d now tok userId of
             (Inl e, d') \<Rightarrow> (Inl e, d')
           | (Inr (row, u), d') \<Rightarrow> (Inr (pr_token row, pr_expiresAt row, u), d')))"

definition consume ::
  "db \<Rightarrow> nat \<Rightarrow> string \<Rightarrow> token_type \<Rightarrow> (error + user_row option) \<times> db" where
  "consume d now tok k =
     (case k of
        EMAIL_VERIFICATION \<Rightarrow> verifyEmailVerificationToken d now tok
      | PASSWORD_RESET \<Rightarrow> verifyPasswordResetToken d now tok)"

text \<open>Consuming the same string again and again, at the times \<open>ts\<close>.\<close>

fun consume_all ::
  "db \<Rightarrow> string \<Rightarrow> token_type \<Rightarrow> nat list \<Rightarrow> (error + user_row option) list" where
  "consume_all d tok k [] = []"
| "consume_all d tok k (t # ts) =
     (case consume d t tok k of (r, d') \<Rightarrow> r # consume_all d' tok k ts)"

text \<open>The used-at stamp of the rows that carry a token string.\<close>

definition usedAt_of :: "db \<Rightarrow> string \<Rightarrow> token_type \<Rightarrow> nat option list" where
  "usedAt_of d tok k =
     (case k of
        EMAIL_VERIFICATION \<Rightarrow>
          map vt_usedAt (filter (\<lambda>r. vt_token r = tok) (verificationTokens d))
      | PASSWORD_RESET \<Rightarrow>
          map pr_usedAt (filter (\<lambda>r. pr_token r = tok) (passwordResetTokens d)))"

subsection \<open>Two consumption attempts, statement by statement\<close>

text \<open>
  Each attempt runs two statements against the store: the \<open>findFirst\<close> (with the
  joined user) and the \<open>update\<close>.  Between the two, the attempt holds the row it
  found.  A schedule says which attempt runs its next statement: \<open>False\<close> the
  first, \<open>True\<close> the second.
\<close>

datatype 'r attempt = Start | Found 'r "user_row option" | Returned "error + user_row option"

definition vt_step ::
  "db \<Rightarrow> nat \<Rightarrow> string \<Rightarrow> verification_token attempt \<Rightarrow> verification_token attempt \<times> db" where
  "vt_step d now tok a =
     (case a of
        Start \<Rightarrow>
          (case vt_findFirst d now tok of
             None \<Rightarrow> (Returned (Inr None), d)
           | Some r \<Rightarrow> (Found r (findUser d (vt_userId r)), d))
      | Found r u \<Rightarrow>
          (case vt_update_usedAt d (vt_id r) now of
             Inl e \<Rightarrow> (Returned (Inl e), d)
           | Inr d' \<Rightarrow> (Returned (Inr u), d'))
      | Returned x \<Rightarrow> (Returned x, d))"

definition pr_step ::
  "db \<Rightarrow> nat \<Rightarrow> string \<Rightarrow> password_reset_token attempt \<Rightarrow> password_reset_token attempt \<times> db" where
  "pr_step d now tok a =
     (case a of
        Start \<Rightarrow>
          (case pr_findFirst d now tok of
             None \<Rightarrow> (Returned (Inr None), d)
           | Some r \<Rightarrow> (Found r (findUser d (pr_userId r)), d))
      | Found r u \<Rightarrow>
          (case pr_update_usedAt d (pr_id r) now of
             Inl e \<Rightarrow> (Returned (Inl e), d)
           | Inr d' \<Rightarrow> (Returned (Inr u), d'))
      | Returned x \<Rightarrow> (Returned x, d))"

fun vt_run ::
  "db \<Rightarrow> nat \<Rightarrow> string \<Rightarrow> verification_token attempt \<times> verification_token attempt
     \<Rightarrow> bool list \<Rightarrow> (verification_token attempt \<times> verification_token attempt) \<times> db" where
  "vt_run d now tok (a, b) [] = ((a, b), d)"
| "vt_run d now tok (a, b) (False # s) =
     (case vt_step d now tok a of (a', d') \<Rightarrow> vt_run d' now tok (a', b) s)"
| "vt_run d now tok (a, b) (True # s) =
     (case vt_step d now tok b of (b', d') \<Rightarrow> vt_run d' now tok (a, b') s)"

fun pr_run ::
  "db \<Rightarrow> nat \<Rightarrow> string \<Rightarrow> password_reset_token attempt \<times> password_reset_token attempt
     \<Rightarrow> bool list \<Rightarrow> (password_reset_token attempt \<times> password_reset_token attempt) \<times> db" where
  "pr_run d now tok (a, b) [] = ((a, b), d)"
| "pr_run d now tok (a, b) (False # s) =
     (case pr_step d now tok a of (a', d') \<Rightarrow> pr_run d' now tok (a', b) s)"
| "pr_run d now tok (a, b) (True # s) =
     (case pr_step d now tok b of (b', d') \<Rightarrow> pr_run d' now tok (a, b') s)"

subsection \<open>A small store for the examples\<close>

definition alice :: user_row where
  "alice = \<lparr>u_id = ''clx0a1'', u_name = ''Alice'', u_email = ''alice@x.com'',
            u_passwordHash = ''hashA'', u_isAdmin = False\<rparr>"

definition bob :: user_row where
  "bob = \<lparr>u_id = ''clx0b2'', u_name = ''Bob'', u_email = ''bob@x.com'',
          u_passwordHash = ''hashB'', u_isAdmin = False\<rparr>"

definition db0 :: db where
  "db0 = \<lparr>users = [alice, bob], verificationTokens = [], passwordResetTokens = [],
          books = [], nextId = 0\<rparr>"

definition db1 :: db where
  "db1 = db0\<lparr>verificationTokens :=
               [\<lparr>vt_id = 0, vt_userId = ''clx0a1'', vt_token = ''aa11'',
                 vt_type = EMAIL_VERIFICATION, vt_expiresAt = 86400000, vt_usedAt = None\<rparr>],
             passwordResetTokens :=
               [\<lparr>pr_id = 1, pr_userId = ''clx0b2'', pr_token = ''bb22'',
                 pr_expiresAt = 3600000, pr_usedAt = None\<rparr>],
             nextId := 2\<rparr>"

text \<open>Whether the store holds a live token of kind \<open>k\<close> with the string \<open>tok\<close>.\<close>

definition has_live :: "db \<Rightarrow> nat \<Rightarrow> string \<Rightarrow> token_type \<Rightarrow> bool" where
  "has_live d now tok k =
     (case k of
        EMAIL_VERIFICATION \<Rightarrow>
          (\<exists>r \<in> set (verificationTokens d).
              vt_token r = tok \<and> vt_type r = EMAIL_VERIFICATION \<and> vt_live now r)
      | PASSWORD_RESET \<Rightarrow>
          (\<exists>r \<in> set (passwordResetTokens d). pr_token r = tok \<and> pr_live now r))"

section \<open>The cache store (config/redis.js)\<close>

text \<open>
  What \<open>findById\<close> selects from a user row, and the JSON values that the modelled
  code writes to the cache.  An entry holds its value and the second at which it
  expires (\<open>None\<close>: no expiry); it is visible while \<open>now\<close> is before that second.
  \<open>r_up\<close> says whether the redis client answers at all.
\<close>

record user_view =
  v_id :: string
  v_name :: string
  v_email :: string
  v_isAdmin :: bool

definition select_user :: "user_row \<Rightarrow> user_view" where
  "select_user u = \<lparr>v_id = u_id u, v_name = u_name u, v_email = u_email u,
                    v_isAdmin = u_isAdmin u\<rparr>"

datatype cval = VUser user_view | VBook book_row | VTrue | VNum int

text \<open>JavaScript truthiness of a parsed value (\<open>if (cachedUser)\<close>).\<close>

fun truthy :: "cval \<Rightarrow> bool" where
  "truthy (VNum n) = (n \<noteq> 0)"
| "truthy _ = True"

record redis =
  r_up :: bool
  r_faults :: "bool list"
  r_kv :: "(string \<times> cval \<times> int option) list"

text \<open>
  A call fails when the client is down, or when the head of \<open>r_faults\<close> says so:
  \<open>r_faults\<close> schedules transient failures, one flag per call, and every call
  consumes its flag.
\<close>

definition failing :: "redis \<Rightarrow> bool" where
  "failing r = (\<not> r_up r \<or> (case r_faults r of [] \<Rightarrow> False | f # fs \<Rightarrow> f))"

definition tick :: "redis \<Rightarrow> redis" where
  "tick r = r\<lparr>r_faults := tl (r_faults r)\<rparr>"

definition visible :: "int \<Rightarrow> cval \<times> int option \<Rightarrow> bool" where
  "visible now e = (case snd e of None \<Rightarrow> True | Some ex \<Rightarrow> now < ex)"

definition lookup :: "redis \<Rightarrow> int \<Rightarrow> string \<Rightarrow> cval option" where
  "lookup r now key =
     (case map_of (r_kv r) key of
        None \<Rightarrow> None
      | Some e \<Rightarrow> if visible now e then Some (fst e) else None)"

definition put :: "redis \<Rightarrow> string \<Rightarrow> cval \<Rightarrow> int option \<Rightarrow> redis" where
  "put r key v ex = r\<lparr>r_kv := (key, v, ex) # filter (\<lambda>e. fst e \<noteq> key) (r_kv r)\<rparr>"

definition setEx :: "redis \<Rightarrow> int \<Rightarrow> string \<Rightarrow> int \<Rightarrow> cval \<Rightarrow> (error + string) \<times> redis" where
  "setEx r now key seconds v =
     (if failing r \<or> seconds \<le> 0 then (Inl RedisError, tick r)
      else (Inr ''OK'', tick (put r key v (Some (now + seconds)))))"

definition get :: "redis \<Rightarrow> int \<Rightarrow> string \<Rightarrow> (error + cval option) \<times> redis" where
  "get r now key =
     (if failing r then (Inl RedisError, tick r) else (Inr (lookup r now key), tick r))"

definition del :: "redis \<Rightarrow> int \<Rightarrow> string list \<Rightarrow> (error + nat) \<times> redis" where
  "del r now ks =
     (if failing r then (Inl RedisError, tick r)
      else (Inr (length (filter (\<lambda>e. fst e \<in> set ks \<and> visible now (snd e)) (r_kv r))),
            tick (r\<lparr>r_kv := filter (\<lambda>e. fst e \<notin> set ks) (r_kv r)\<rparr>)))"

definition exists_key :: "redis \<Rightarrow> int \<Rightarrow> string \<Rightarrow> (error + nat) \<times> redis" where
  "exists_key r now key =
     (if failing r then (Inl RedisError, tick r)
      else (Inr (case lookup r now key of None \<Rightarrow> 0 | Some v \<Rightarrow> 1), tick r))"

definition incr :: "redis \<Rightarrow> int \<Rightarrow> string \<Rightarrow> (error + int) \<times> redis" where
  "incr r now key =
     (if failing r then (Inl RedisError, tick r)
      else case lookup r now key of
             None \<Rightarrow> (Inr 1, tick (put r key (VNum 1) None))
           | Some (VNum n) \<Rightarrow>
               (Inr (n + 1),
                tick (put r key (VNum (n + 1))
                        (case map_of (r_kv r) key of None \<Rightarrow> None | Some e \<Rightarrow> snd e)))
           | Some v \<Rightarrow> (Inl RedisError, tick r))"

text \<open>
  Glob patterns of \<open>KEYS\<close>: \<open>*\<close> matches any run of characters, \<open>?\<close> any one
  character, every other character itself (the code's patterns are \<open>books:*\<close>,
  \<open>users:*\<close>, \<open>stats:*\<close>; bracket classes and escapes are not modelled).
\<close>

fun glob :: "string \<Rightarrow> string \<Rightarrow> bool" where
  "glob [] [] = True"
| "glob [] (x # s) = False"
| "glob (c # p) [] = (c = CHR ''*'' \<and> glob p [])"
| "glob (c # p) (x # s) =
     (if c = CHR ''*'' then glob p (x # s) \<or> glob (c # p) s
      else (c = CHR ''?'' \<or> c = x) \<and> glob p s)"

definition keys :: "redis \<Rightarrow> int \<Rightarrow> string \<Rightarrow> (error + string list) \<times> redis" where
  "keys r now pattern =
     (if failing r then (Inl RedisError, tick r)
      else (Inr (map fst (filter (\<lambda>e. glob pattern (fst e) \<and> visible now (snd e)) (r_kv r))),
            tick r))"

section \<open>CacheService\<close>

text \<open>
  \<open>try { return await f } catch (error) { return dflt }\<close>: whatever \<open>f\<close> raises
  is replaced by the default.
\<close>

definition try_catch :: "(error + 'a) \<times> 's \<Rightarrow> 'a \<Rightarrow> (error + 'a) \<times> 's" where
  "try_catch r dflt = (case fst r of Inl e \<Rightarrow> (Inr dflt, snd r) | Inr v \<Rightarrow> (Inr v, snd r))"

definition generateKey :: "string \<Rightarrow> string \<Rightarrow> string" where
  "generateKey prefix key = prefix @ '':'' @ key"

definition cache_set ::
  "redis \<Rightarrow> int \<Rightarrow> string \<Rightarrow> cval \<Rightarrow> int \<Rightarrow> (error + string option) \<times> redis" where
  "cache_set r now key v ttl =
     try_catch (case setEx r now key ttl v of (x, r') \<Rightarrow> (map_sum id Some x, r')) None"

definition cache_get :: "redis \<Rightarrow> int \<Rightarrow> string \<Rightarrow> (error + cval option) \<times> redis" where
  "cache_get r now key = try_catch (get r now key) None"

definition cache_delete :: "redis \<Rightarrow> int \<Rightarrow> string \<Rightarrow> (error + nat) \<times> redis" where
  "cache_delete r now key = try_catch (del r now [key]) 0"

definition deleteByPattern :: "redis \<Rightarrow> int \<Rightarrow> string \<Rightarrow> (error + nat) \<times> redis" where
  "deleteByPattern r now pattern =
     try_catch
       (case keys r now pattern of
          (Inl e, r1) \<Rightarrow> (Inl e, r1)
        | (Inr keysToDelete, r1) \<Rightarrow>
            if length keysToDelete > 0 then del r1 now keysToDelete else (Inr 0, r1))
       0"

definition cache_exists :: "redis \<Rightarrow> int \<Rightarrow> string \<Rightarrow> (error + bool) \<times> redis" where
  "cache_exists r now key =
     try_catch (case exists_key r now key of (x, r') \<Rightarrow> (map_sum id (\<lambda>n. n = 1) x, r')) False"

definition increment :: "redis \<Rightarrow> int \<Rightarrow> string \<Rightarrow> (error + int) \<times> redis" where
  "increment r now key = try_catch (incr r now key) 0"

section \<open>UserService.findById\<close>

text \<open>
  JavaScript's \<open>parseInt\<close> on a string, radix unspecified: leading white space is
  skipped, a sign is read, then the longest run of digits (hexadecimal after
  \<open>0x\<close>); with no digit the result is \<open>NaN\<close>, here \<open>None\<close>.  Only ASCII white space
  is modelled, and the value is the exact integer (JavaScript rounds beyond
  \<open>2^53\<close>).  \<open>js_toString\<close> is the number-to-string conversion of a template
  literal, for \<open>NaN\<close> and for integers (exact below \<open>10^21\<close>).
\<close>

definition js_white :: "char \<Rightarrow> bool" where
  "js_white c = (of_char c \<in> {9, 10, 11, 12, 13, 32 :: nat})"

definition is_dec :: "char \<Rightarrow> bool" where
  "is_dec c = (48 \<le> (of_char c :: nat) \<and> (of_char c :: nat) \<le> 57)"

definition is_hex :: "char \<Rightarrow> bool" where
  "is_hex c = (is_dec c \<or> (65 \<le> (of_char c :: nat) \<and> (of_char c :: nat) \<le> 70)
                        \<or> (97 \<le> (of_char c :: nat) \<and> (of_char c :: nat) \<le> 102))"

definition digit_val :: "char \<Rightarrow> int" where
  "digit_val c =
     (let n = (of_char c :: nat)
      in if n \<le> 57 then int n - 48 else if n \<le> 70 then int n - 55 else int n - 87)"

definition parseInt :: "string \<Rightarrow> int option" where
  "parseInt s =
     (let s1 = dropWhile js_white s;
          neg = (s1 \<noteq> [] \<and> hd s1 = CHR ''-'');
          s2 = (if s1 \<noteq> [] \<and> (hd s1 = CHR ''-'' \<or> hd s1 = CHR ''+'') then tl s1 else s1);
          hex = (take 2 s2 = ''0x'' \<or> take 2 s2 = ''0X'');
          ds = (if hex then takeWhile is_hex (drop 2 s2) else takeWhile is_dec s2);
          n = foldl (\<lambda>a c. a * (if hex then 16 else 10) + digit_val c) 0 ds
      in if ds = [] then None else Some (if neg then - n else n))"

fun dec :: "nat \<Rightarrow> string" where
  "dec n = (if n < 10 then [char_of (48 + n)] else dec (n div 10) @ [char_of (48 + n mod 10)])"

declare dec.simps [simp del]

definition js_toString :: "int option \<Rightarrow> string" where
  "js_toString x =
     (case x of
        None \<Rightarrow> ''NaN''
      | Some n \<Rightarrow> if n < 0 then CHR ''-'' # dec (nat (- n)) else dec (nat n))"

text \<open>The two collaborating stores that a request handler sees.\<close>

record world =
  w_cache :: redis
  w_db :: db

definition getCachedUser :: "redis \<Rightarrow> int \<Rightarrow> int option \<Rightarrow> (error + cval option) \<times> redis" where
  "getCachedUser c now userId = cache_get c now (generateKey ''user'' (js_toString userId))"

definition cacheUser ::
  "redis \<Rightarrow> int \<Rightarrow> int option \<Rightarrow> cval \<Rightarrow> int \<Rightarrow> (error + string option) \<times> redis" where
  "cacheUser c now userId user ttl =
     cache_set c now (generateKey ''user'' (js_toString userId)) user ttl"

text \<open>
  \<open>findById\<close>: the cache is read and written under \<open>parseInt(id)\<close>, the relational
  store is read under \<open>id\<close>.  The result is the cached JSON value on a hit and the
  selected row on a miss.
\<close>

definition findById :: "world \<Rightarrow> int \<Rightarrow> string \<Rightarrow> (error + cval option) \<times> world" where
  "findById w now ident =
     (let userId = parseInt ident
      in case getCachedUser (w_cache w) now userId of
           (Inl e, c1) \<Rightarrow> (Inl e, w\<lparr>w_cache := c1\<rparr>)
         | (Inr cachedUser, c1) \<Rightarrow>
             if (case cachedUser of None \<Rightarrow> False | Some v \<Rightarrow> truthy v)
             then (Inr cachedUser, w\<lparr>w_cache := c1\<rparr>)
             else (case findUser (w_db w) ident of
                     None \<Rightarrow> (Inr None, w\<lparr>w_cache := c1\<rparr>)
                   | Some u \<Rightarrow>
                       (case cacheUser c1 now userId (VUser (select_user u)) 600 of
                          (Inl e, c2) \<Rightarrow> (Inl e, w\<lparr>w_cache := c2\<rparr>)
                        | (Inr x, c2) \<Rightarrow>
                            (Inr (Some (VUser (select_user u))), w\<lparr>w_cache := c2\<rparr>))))"

definition findByEmail :: "db \<Rightarrow> string \<Rightarrow> user_row option" where
  "findByEmail d email = find (\<lambda>u. u_email u = email) (users d)"

text \<open>The methods that class \<open>UserService\<close> defines.\<close>

definition UserService_methods :: "string list" where
  "UserService_methods =
     [''hashPassword'', ''validatePassword'', ''createUser'', ''findByEmail'', ''findById'',
      ''findByIdWithPassword'', ''getUsers'', ''updateUser'', ''deleteUser'',
      ''markEmailAsVerified'', ''updateLastLogin'', ''getUserStats'']"

text \<open>Calling \<open>obj.name(...)\<close>: a \<open>TypeError\<close> when \<open>obj\<close> has no such method.\<close>

definition call_method :: "string list \<Rightarrow> string \<Rightarrow> error + unit" where
  "call_method methods name =
     (if name \<in> set methods then Inr () else Inl (TypeError (name @ '' is not a function'')))"

text \<open>Reading an identifier: a \<open>ReferenceError\<close> when the module binds no such name.\<close>

definition resolve :: "string list \<Rightarrow> string \<Rightarrow> error + unit" where
  "resolve scope name =
     (if name \<in> set scope then Inr () else Inl (ReferenceError (name @ '' is not defined'')))"

section \<open>Auth middleware (middleware/auth.js)\<close>

text \<open>
  The \<open>jsonwebtoken\<close> library is not part of the repository: it is a parameter.
  \<open>jwt_verify\<close> takes the token, the secret and the time, and raises
  \<open>JsonWebTokenError\<close> or \<open>TokenExpiredError\<close>; \<open>jwt_decode\<close> reads the payload
  without checking anything (\<open>null\<close> for a malformed token); \<open>jwt_sign\<close> makes a
  token of a payload.  The payload's \<open>exp\<close> is in seconds and may be absent.
\<close>

record jwt_payload =
  p_userId :: string
  p_type :: string
  p_exp :: "int option"

record jwtlib =
  jwt_verify :: "string \<Rightarrow> string \<Rightarrow> int \<Rightarrow> error + jwt_payload"
  jwt_decode :: "string \<Rightarrow> error + jwt_payload option"
  jwt_sign :: "jwt_payload \<Rightarrow> string \<Rightarrow> string"

record env =
  JWT_SECRET :: string
  JWT_REFRESH_SECRET :: string
  JWT_EXPIRES_IN :: int
  JWT_REFRESH_EXPIRES_IN :: int

definition startsWith :: "string \<Rightarrow> string \<Rightarrow> bool" where
  "startsWith s p = (take (length p) s = p)"

text \<open>The \<open>catch\<close> of \<open>authenticate\<close>: the two JWT errors are renamed, the rest passes.\<close>

definition auth_catch :: "error \<Rightarrow> error" where
  "auth_catch e =
     (case e of
        JsonWebTokenError \<Rightarrow> AuthenticationError ''Invalid token''
      | TokenExpiredError \<Rightarrow> AuthenticationError ''Token expired''
      | _ \<Rightarrow> e)"

definition authenticate ::
  "jwtlib \<Rightarrow> env \<Rightarrow> world \<Rightarrow> int \<Rightarrow> string option \<Rightarrow> (error + cval \<times> string) \<times> world" where
  "authenticate J E w now authHeader =
     (case authHeader of
        None \<Rightarrow> (Inl (auth_catch (AuthenticationError ''Access token required'')), w)
      | Some h \<Rightarrow>
          if \<not> startsWith h ''Bearer ''
          then (Inl (auth_catch (AuthenticationError ''Access token required'')), w)
          else let token = drop 7 h
               in if token = []
                  then (Inl (auth_catch (AuthenticationError ''Access token required'')), w)
                  else case get (w_cache w) now (''blacklist:'' @ token) of
                         (Inl e, c1) \<Rightarrow> (Inl (auth_catch e), w\<lparr>w_cache := c1\<rparr>)
                       | (Inr isBlacklisted, c1) \<Rightarrow>
                           if (case isBlacklisted of None \<Rightarrow> False | Some v \<Rightarrow> truthy v)
                           then (Inl (auth_catch (AuthenticationError ''Token has been revoked'')),
                                 w\<lparr>w_cache := c1\<rparr>)
                           else case jwt_verify J token (JWT_SECRET E) now of
                                  Inl e \<Rightarrow> (Inl (auth_catch e), w\<lparr>w_cache := c1\<rparr>)
                                | Inr decoded \<Rightarrow>
                                    (case findById (w\<lparr>w_cache := c1\<rparr>) now (p_userId decoded) of
                                       (Inl e, w2) \<Rightarrow> (Inl (auth_catch e), w2)
                                     | (Inr None, w2) \<Rightarrow>
                                         (Inl (auth_catch (AuthenticationError ''User not found'')), w2)
                                     | (Inr (Some user), w2) \<Rightarrow>
                                         if truthy user then (Inr (user, token), w2)
                                         else (Inl (auth_catch (AuthenticationError ''User not found'')),
                                               w2)))"

definition generateTokens :: "jwtlib \<Rightarrow> env \<Rightarrow> int \<Rightarrow> string \<Rightarrow> string \<times> string" where
  "generateTokens J E now userId =
     (jwt_sign J \<lparr>p_userId = userId, p_type = ''access'',
                  p_exp = Some (now + JWT_EXPIRES_IN E)\<rparr> (JWT_SECRET E),
      jwt_sign J \<lparr>p_userId = userId, p_type = ''refresh'',
                  p_exp = Some (now + JWT_REFRESH_EXPIRES_IN E)\<rparr> (JWT_REFRESH_SECRET E))"

definition verifyRefreshToken :: "jwtlib \<Rightarrow> env \<Rightarrow> int \<Rightarrow> string \<Rightarrow> error + jwt_payload" where
  "verifyRefreshToken J E now token = jwt_verify J token (JWT_REFRESH_SECRET E) now"

text \<open>
  \<open>blacklistToken\<close>: the whole body is inside \<open>try\<close>, and the \<open>catch\<close> only logs.
  \<open>decoded.exp\<close> is falsy when it is absent or \<open>0\<close>.
\<close>

definition blacklistToken :: "jwtlib \<Rightarrow> redis \<Rightarrow> int \<Rightarrow> string \<Rightarrow> (error + unit) \<times> redis" where
  "blacklistToken J c now token =
     try_catch
       (case jwt_decode J token of
          Inl e \<Rightarrow> (Inl e, c)
        | Inr None \<Rightarrow> (Inr (), c)
        | Inr (Some decoded) \<Rightarrow>
            (case p_exp decoded of
               None \<Rightarrow> (Inr (), c)
             | Some ex \<Rightarrow>
                 if ex = 0 then (Inr (), c)
                 else let ttl = ex - now
                      in if ttl > 0
                         then (case setEx c now (''blacklist:'' @ token) ttl VTrue of
                                 (Inl e, c') \<Rightarrow> (Inl e, c')
                               | (Inr x, c') \<Rightarrow> (Inr (), c'))
                         else (Inr (), c)))
       ()"

section \<open>Auth routes\<close>

text \<open>
  What a handler hands to \<open>res.json\<close>, and the status of the exchange: \<open>res.json\<close>
  without \<open>res.status\<close> answers 200, an error passed to \<open>next\<close> is answered by
  \<open>errorHandler\<close>.
\<close>

datatype reply = Tokens "string \<times> string" | Message string

definition http_status :: "error + reply \<Rightarrow> nat" where
  "http_status r = (case r of Inl e \<Rightarrow> errorHandler e | Inr x \<Rightarrow> 200)"

text \<open>The names that the module of the auth routes binds (its imports and \<open>router\<close>).\<close>

definition auth_routes_scope :: "string list" where
  "auth_routes_scope =
     [''express'', ''bcrypt'', ''jwt'', ''UserService'', ''TokenService'', ''authenticate'',
      ''generateTokens'', ''verifyRefreshToken'', ''blacklistToken'', ''validate'',
      ''authSchemas'', ''ValidationError'', ''AuthenticationError'', ''NotFoundError'',
      ''emailService'', ''redisClient'', ''router'']"

text \<open>\<open>user.id\<close> of a value that \<open>findById\<close> returned.\<close>

definition cval_id :: "cval \<Rightarrow> string" where
  "cval_id v = (case v of VUser u \<Rightarrow> v_id u | _ \<Rightarrow> ''undefined'')"

subsection \<open>POST /auth/refresh\<close>

text \<open>
  The handler after \<open>validate(authSchemas.refresh)\<close> (a non-empty string).  The
  blacklist lookup is written \<open>redis.exists(...)\<close>; the statements after it are
  modelled as if \<open>redis\<close> were the redis client.
\<close>

definition refresh_handler ::
  "jwtlib \<Rightarrow> env \<Rightarrow> world \<Rightarrow> int \<Rightarrow> string \<Rightarrow> (error + reply) \<times> world" where
  "refresh_handler J E w now refreshToken =
     (case verifyRefreshToken J E now refreshToken of
        Inl e \<Rightarrow> (Inl e, w)
      | Inr decoded \<Rightarrow>
          (case resolve auth_routes_scope ''redis'' of
             Inl e \<Rightarrow> (Inl e, w)
           | Inr u \<Rightarrow>
               (case exists_key (w_cache w) now (''blacklist:'' @ refreshToken) of
                  (Inl e, c1) \<Rightarrow> (Inl e, w\<lparr>w_cache := c1\<rparr>)
                | (Inr isBlacklisted, c1) \<Rightarrow>
                    if isBlacklisted \<noteq> 0
                    then (Inl (AuthenticationError ''Refresh token has been revoked''),
                          w\<lparr>w_cache := c1\<rparr>)
                    else (case findById (w\<lparr>w_cache := c1\<rparr>) now (p_userId decoded) of
                            (Inl e, w2) \<Rightarrow> (Inl e, w2)
                          | (Inr None, w2) \<Rightarrow> (Inl (AuthenticationError ''User not found''), w2)
                          | (Inr (Some user), w2) \<Rightarrow>
                              if \<not> truthy user
                              then (Inl (AuthenticationError ''User not found''), w2)
                              else (case blacklistToken J (w_cache w2) now refreshToken of
                                      (Inl e, c3) \<Rightarrow> (Inl e, w2\<lparr>w_cache := c3\<rparr>)
                                    | (Inr x, c3) \<Rightarrow>
                                        (Inr (Tokens (generateTokens J E now (cval_id user))),
                                         w2\<lparr>w_cache := c3\<rparr>))))))"

definition refresh_route ::
  "jwtlib \<Rightarrow> env \<Rightarrow> world \<Rightarrow> int \<Rightarrow> string option \<Rightarrow> (error + reply) \<times> world" where
  "refresh_route J E w now body_refreshToken =
     (case body_refreshToken of
        None \<Rightarrow> (Inl (ValidationError ''Validation failed''), w)
      | Some t \<Rightarrow>
          if length t < 1 then (Inl (ValidationError ''Validation failed''), w)
          else refresh_handler J E w now t)"

subsection \<open>POST /auth/logout\<close>

text \<open>
  \<open>authenticate\<close>, then \<open>validate(authSchemas.logout)\<close>, then the handler, which
  gets the access token by removing the first occurrence of \<open>Bearer\<close> and a space
  from the header (\<open>replace\<close>).
\<close>

fun replace_first :: "string \<Rightarrow> string \<Rightarrow> string" where
  "replace_first pat [] = []"
| "replace_first pat (c # s) =
     (if take (length pat) (c # s) = pat then drop (length pat) (c # s)
      else c # replace_first pat s)"

definition logout_handler ::
  "jwtlib \<Rightarrow> world \<Rightarrow> int \<Rightarrow> string option \<Rightarrow> string \<Rightarrow> (error + reply) \<times> world" where
  "logout_handler J w now authHeader refreshToken =
     (let accessToken = (case authHeader of None \<Rightarrow> [] | Some h \<Rightarrow> replace_first ''Bearer '' h)
      in case (if accessToken \<noteq> [] then blacklistToken J (w_cache w) now accessToken
               else (Inr (), w_cache w)) of
           (Inl e, c1) \<Rightarrow> (Inl e, w\<lparr>w_cache := c1\<rparr>)
         | (Inr x, c1) \<Rightarrow>
             (case (if refreshToken \<noteq> [] then blacklistToken J c1 now refreshToken
                    else (Inr (), c1)) of
                (Inl e, c2) \<Rightarrow> (Inl e, w\<lparr>w_cache := c2\<rparr>)
              | (Inr y, c2) \<Rightarrow> (Inr (Message ''Logout successful''), w\<lparr>w_cache := c2\<rparr>)))"

definition logout_route ::
  "jwtlib \<Rightarrow> env \<Rightarrow> world \<Rightarrow> int \<Rightarrow> string option \<Rightarrow> string option
     \<Rightarrow> (error + reply) \<times> world" where
  "logout_route J E w now authHeader body_refreshToken =
     (case authenticate J E w now authHeader of
        (Inl e, w1) \<Rightarrow> (Inl e, w1)
      | (Inr ut, w1) \<Rightarrow>
          (case body_refreshToken of
             None \<Rightarrow> (Inl (ValidationError ''Validation failed''), w1)
           | Some t \<Rightarrow>
               if length t < 1 then (Inl (ValidationError ''Validation failed''), w1)
               else logout_handler J w1 now authHeader t))"

subsection \<open>POST /auth/forgot-password\<close>

text \<open>
  The handler on a validated body.  \<open>ms\<close> is the time in milliseconds, \<open>tok\<close> the
  random token string, and \<open>mail_ok\<close> says whether the transporter's \<open>sendMail\<close>
  succeeds: when it fails \<open>sendPasswordResetEmail\<close> raises, and the handler's
  \<open>catch\<close> raises a \<open>ValidationError\<close> in turn.
\<close>

definition forgot_password_handler ::
  "world \<Rightarrow> nat \<Rightarrow> string \<Rightarrow> bool \<Rightarrow> string \<Rightarrow> (error + reply) \<times> world" where
  "forgot_password_handler w ms tok mail_ok email =
     (case findByEmail (w_db w) email of
        None \<Rightarrow>
          (Inr (Message
             ''If an account with that email exists, we have sent a password reset link.''), w)
      | Some user \<Rightarrow>
          (case createPasswordResetToken (w_db w) ms tok (u_id user) of
             (Inl e, d1) \<Rightarrow> (Inl e, w\<lparr>w_db := d1\<rparr>)
           | (Inr resetToken, d1) \<Rightarrow>
               if \<not> mail_ok
               then (Inl (ValidationError ''Failed to send password reset email''),
                     w\<lparr>w_db := d1\<rparr>)
               else (Inr (Message
                       ''If an account with that email exists, we have sent a password reset link.''),
                     w\<lparr>w_db := d1\<rparr>)))"

subsection \<open>POST /auth/reset-password\<close>

text \<open>
  The body as the client sends it, and \<open>validate(authSchemas.resetPassword)\<close>: the
  schema asks for \<open>token\<close> (non-empty) and \<open>newPassword\<close> (at least 8 characters,
  with a lower-case letter, an upper-case letter and a digit), and the parsed object
  that replaces \<open>req.body\<close> keeps the schema's keys only.
\<close>

record reset_body =
  rb_token :: "string option"
  rb_password :: "string option"
  rb_newPassword :: "string option"

definition password_ok :: "string \<Rightarrow> bool" where
  "password_ok p =
     (length p \<ge> 8
      \<and> (\<exists>c \<in> set p. 97 \<le> (of_char c :: nat) \<and> (of_char c :: nat) \<le> 122)
      \<and> (\<exists>c \<in> set p. 65 \<le> (of_char c :: nat) \<and> (of_char c :: nat) \<le> 90)
      \<and> (\<exists>c \<in> set p. is_dec c))"

definition validate_resetPassword :: "reset_body \<Rightarrow> error + reset_body" where
  "validate_resetPassword b =
     (case (rb_token b, rb_newPassword b) of
        (Some t, Some p) \<Rightarrow>
          if length t \<ge> 1 \<and> password_ok p
          then Inr \<lparr>rb_token = Some t, rb_password = None, rb_newPassword = Some p\<rparr>
          else Inl (ValidationError ''Validation failed'')
      | _ \<Rightarrow> Inl (ValidationError ''Validation failed''))"

text \<open>
  The handler reads \<open>token\<close> and \<open>password\<close> from the validated body, consumes the
  token, and calls \<open>UserService.updatePassword\<close>.  What follows that call is the
  deletion of the cache keys \<open>auth_token:<id>:*\<close> through the redis client.
\<close>

definition reset_password_handler ::
  "world \<Rightarrow> nat \<Rightarrow> int \<Rightarrow> reset_body \<Rightarrow> (error + reply) \<times> world" where
  "reset_password_handler w ms now body =
     (case rb_token body of
        None \<Rightarrow> (Inl (ValidationError ''Invalid or expired reset token''), w)
      | Some token \<Rightarrow>
          (case verifyPasswordResetToken (w_db w) ms token of
             (Inl e, d1) \<Rightarrow> (Inl e, w\<lparr>w_db := d1\<rparr>)
           | (Inr None, d1) \<Rightarrow>
               (Inl (ValidationError ''Invalid or expired reset token''), w\<lparr>w_db := d1\<rparr>)
           | (Inr (Some user), d1) \<Rightarrow>
               (case call_method UserService_methods ''updatePassword'' of
                  Inl e \<Rightarrow> (Inl e, w\<lparr>w_db := d1\<rparr>)
                | Inr u \<Rightarrow>
                    (case keys (w_cache w) now (''auth_token:'' @ u_id user @ '':*'') of
                       (Inl e, c1) \<Rightarrow> (Inl e, \<lparr>w_cache = c1, w_db = d1\<rparr>)
                     | (Inr existingTokens, c1) \<Rightarrow>
                         (case (if length existingTokens > 0 then del c1 now existingTokens
                                else (Inr 0, c1)) of
                            (Inl e, c2) \<Rightarrow> (Inl e, \<lparr>w_cache = c2, w_db = d1\<rparr>)
                          | (Inr n, c2) \<Rightarrow>
                              (Inr (Message ''Password reset successfully''),
                               \<lparr>w_cache = c2, w_db = d1\<rparr>))))))"

definition reset_password_route ::
  "world \<Rightarrow> nat \<Rightarrow> int \<Rightarrow> reset_body \<Rightarrow> (error + reply) \<times> world" where
  "reset_password_route w ms now body =
     (case validate_resetPassword body of
        Inl e \<Rightarrow> (Inl e, w)
      | Inr parsed \<Rightarrow> reset_password_handler w ms now parsed)"

section \<open>BookService\<close>














section \<open>Book routes\<close>









section \<open>A small world for the examples\<close>

text \<open>
  A library in which \<open>acc.alice\<close> is an access token of the first example user
  (signed with \<open>s1\<close>, expiring at second 900) and \<open>ref.alice\<close> her refresh token
  (signed with \<open>s2\<close>, expiring at second 604800), \<open>acc.bob\<close> an access token of the
  second user; every other string is malformed.
\<close>

definition toy_table :: "string \<Rightarrow> (jwt_payload \<times> string) option" where
  "toy_table t =
     (if t = ''acc.alice''
      then Some (\<lparr>p_userId = ''clx0a1'', p_type = ''access'', p_exp = Some 900\<rparr>, ''s1'')
      else if t = ''ref.alice''
      then Some (\<lparr>p_userId = ''clx0a1'', p_type = ''refresh'', p_exp = Some 604800\<rparr>, ''s2'')
      else if t = ''acc.bob''
      then Some (\<lparr>p_userId = ''clx0b2'', p_type = ''access'', p_exp = Some 900\<rparr>, ''s1'')
      else None)"

definition toy_jwt :: jwtlib where
  "toy_jwt =
     \<lparr>jwt_verify = (\<lambda>t secret now.
         case toy_table t of
           None \<Rightarrow> Inl JsonWebTokenError
         | Some (p, k) \<Rightarrow>
             if k \<noteq> secret then Inl JsonWebTokenError
             else if (case p_exp p of None \<Rightarrow> False | Some ex \<Rightarrow> ex \<le> now)
             then Inl TokenExpiredError
             else Inr p),
      jwt_decode = (\<lambda>t. Inr (map_option fst (toy_table t))),
      jwt_sign = (\<lambda>p secret. p_type p @ ''.'' @ p_userId p @ ''.'' @ secret)\<rparr>"

definition toy_env :: env where
  "toy_env = \<lparr>JWT_SECRET = ''s1'', JWT_REFRESH_SECRET = ''s2'', JWT_EXPIRES_IN = 900,
              JWT_REFRESH_EXPIRES_IN = 604800\<rparr>"

definition world0 :: world where
  "world0 = \<lparr>w_cache = \<lparr>r_up = True, r_faults = [], r_kv = []\<rparr>, w_db = db1\<rparr>"

definition world_down :: world where
  "world_down = \<lparr>w_cache = \<lparr>r_up = False, r_faults = [], r_kv = []\<rparr>, w_db = db1\<rparr>"

text \<open>
  A world whose cache answers its next three calls and fails the two after them.
\<close>

definition world_flaky :: world where
  "world_flaky = \<lparr>w_cache = \<lparr>r_up = True, r_faults = [False, False, False, True, True],
                              r_kv = []\<rparr>,
                  w_db = db1\<rparr>"






section \<open>Properties of the token store\<close>

lemma length_filter_filter_le:
  "length (filter P (filter Q xs)) \<le> length (filter P xs)"
  by (induction xs) auto

lemma length_filter_conj_le:
  "length (filter (\<lambda>x. Q x \<and> P x) xs) \<le> length (filter P xs)"
  by (induction xs) auto

lemma length_filter_map_le:
  assumes "\<And>x. x \<in> set xs \<Longrightarrow> P (f x) \<Longrightarrow> P x"
  shows "length (filter P (map f xs)) \<le> length (filter P xs)"
  using assms by (induction xs) auto

lemma vt_tables_issue_email:
  "verificationTokens (snd (createEmailVerificationToken d t tok u)) =
     filter (\<lambda>r. \<not> (vt_userId r = u \<and> vt_type r = EMAIL_VERIFICATION)) (verificationTokens d)
   \<or> (\<exists>row. vt_userId row = u \<and> vt_type row = EMAIL_VERIFICATION
        \<and> verificationTokens (snd (createEmailVerificationToken d t tok u)) =
          filter (\<lambda>r. \<not> (vt_userId r = u \<and> vt_type r = EMAIL_VERIFICATION)) (verificationTokens d)
            @ [row])"
  by (auto simp: createEmailVerificationToken_def Let_def split: option.splits)

lemma pr_tables_issue_email:
  "passwordResetTokens (snd (createEmailVerificationToken d t tok u)) = passwordResetTokens d"
  by (auto simp: createEmailVerificationToken_def Let_def split: option.splits)

lemma pr_tables_issue_reset:
  "passwordResetTokens (snd (createPasswordResetToken d t tok u)) =
     filter (\<lambda>r. \<not> (pr_userId r = u)) (passwordResetTokens d)
   \<or> (\<exists>row. pr_userId row = u
        \<and> passwordResetTokens (snd (createPasswordResetToken d t tok u)) =
          filter (\<lambda>r. \<not> (pr_userId r = u)) (passwordResetTokens d) @ [row])"
  by (auto simp: createPasswordResetToken_def Let_def split: option.splits)

lemma vt_tables_issue_reset:
  "verificationTokens (snd (createPasswordResetToken d t tok u)) = verificationTokens d"
  by (auto simp: createPasswordResetToken_def Let_def split: option.splits)

lemma filter_owner_removed:
  "filter (\<lambda>r. Q r \<and> P r) (filter (\<lambda>r. \<not> Q r) xs) = []"
  by (induction xs) auto

lemma live_count_issue_email_owner:
  "live_count (snd (createEmailVerificationToken d t tok u)) now u EMAIL_VERIFICATION \<le> 1"
proof -
  let ?Q = "\<lambda>r. vt_userId r = u \<and> vt_type r = EMAIL_VERIFICATION"
  have gone: "filter (\<lambda>r. ?Q r \<and> vt_live now r) (filter (\<lambda>r. \<not> ?Q r) (verificationTokens d)) = []"
    by (rule filter_owner_removed)
  from vt_tables_issue_email [of d t tok u] show ?thesis
  proof
    assume "verificationTokens (snd (createEmailVerificationToken d t tok u)) =
              filter (\<lambda>r. \<not> ?Q r) (verificationTokens d)"
    with gone show ?thesis by (simp add: live_count_def)
  next
    assume "\<exists>row. vt_userId row = u \<and> vt_type row = EMAIL_VERIFICATION
              \<and> verificationTokens (snd (createEmailVerificationToken d t tok u)) =
                filter (\<lambda>r. \<not> ?Q r) (verificationTokens d) @ [row]"
    then obtain row where
      "verificationTokens (snd (createEmailVerificationToken d t tok u)) =
         filter (\<lambda>r. \<not> ?Q r) (verificationTokens d) @ [row]" by blast
    with gone show ?thesis by (simp add: live_count_def)
  qed
qed

lemma live_count_issue_reset_owner:
  "live_count (snd (createPasswordResetToken d t tok u)) now u PASSWORD_RESET \<le> 1"
proof -
  let ?Q = "\<lambda>r. pr_userId r = u"
  have gone: "filter (\<lambda>r. ?Q r \<and> pr_live now r) (filter (\<lambda>r. \<not> ?Q r) (passwordResetTokens d)) = []"
    by (rule filter_owner_removed)
  from pr_tables_issue_reset [of d t tok u] show ?thesis
  proof
    assume "passwordResetTokens (snd (createPasswordResetToken d t tok u)) =
              filter (\<lambda>r. \<not> ?Q r) (passwordResetTokens d)"
    with gone show ?thesis by (simp add: live_count_def)
  next
    assume "\<exists>row. pr_userId row = u
              \<and> passwordResetTokens (snd (createPasswordResetToken d t tok u)) =
                filter (\<lambda>r. \<not> ?Q r) (passwordResetTokens d) @ [row]"
    then obtain row where
      "passwordResetTokens (snd (createPasswordResetToken d t tok u)) =
         filter (\<lambda>r. \<not> ?Q r) (passwordResetTokens d) @ [row]" by blast
    with gone show ?thesis by (simp add: live_count_def)
  qed
qed

lemma live_count_issue_email_other:
  assumes "(u', k) \<noteq> (u, EMAIL_VERIFICATION)"
  shows "live_count (snd (createEmailVerificationToken d t tok u)) now u' k
           \<le> live_count d now u' k"
proof (cases k)
  case PASSWORD_RESET
  then show ?thesis by (simp add: live_count_def pr_tables_issue_email)
next
  case EMAIL_VERIFICATION
  with assms have ne: "u' \<noteq> u" by simp
  let ?Q = "\<lambda>r. vt_userId r = u \<and> vt_type r = EMAIL_VERIFICATION"
  let ?P = "\<lambda>r. vt_userId r = u' \<and> vt_type r = EMAIL_VERIFICATION \<and> vt_live now r"
  have le: "length (filter ?P (filter (\<lambda>r. \<not> ?Q r) (verificationTokens d)))
              \<le> length (filter ?P (verificationTokens d))"
    by (rule length_filter_filter_le)
  from vt_tables_issue_email [of d t tok u] show ?thesis
  proof
    assume "verificationTokens (snd (createEmailVerificationToken d t tok u)) =
              filter (\<lambda>r. \<not> ?Q r) (verificationTokens d)"
    with le EMAIL_VERIFICATION show ?thesis by (simp add: live_count_def)
  next
    assume "\<exists>row. vt_userId row = u \<and> vt_type row = EMAIL_VERIFICATION
              \<and> verificationTokens (snd (createEmailVerificationToken d t tok u)) =
                filter (\<lambda>r. \<not> ?Q r) (verificationTokens d) @ [row]"
    then obtain row where "vt_userId row = u"
      and "verificationTokens (snd (createEmailVerificationToken d t tok u)) =
             filter (\<lambda>r. \<not> ?Q r) (verificationTokens d) @ [row]" by blast
    with le ne EMAIL_VERIFICATION show ?thesis by (simp add: live_count_def)
  qed
qed

lemma live_count_issue_reset_other:
  assumes "(u', k) \<noteq> (u, PASSWORD_RESET)"
  shows "live_count (snd (createPasswordResetToken d t tok u)) now u' k
           \<le> live_count d now u' k"
proof (cases k)
  case EMAIL_VERIFICATION
  then show ?thesis by (simp add: live_count_def vt_tables_issue_reset)
next
  case PASSWORD_RESET
  with assms have ne: "u' \<noteq> u" by simp
  let ?Q = "\<lambda>r. pr_userId r = u"
  let ?P = "\<lambda>r. pr_userId r = u' \<and> pr_live now r"
  have le: "length (filter ?P (filter (\<lambda>r. \<not> ?Q r) (passwordResetTokens d)))
              \<le> length (filter ?P (passwordResetTokens d))"
    by (rule length_filter_filter_le)
  from pr_tables_issue_reset [of d t tok u] show ?thesis
  proof
    assume "passwordResetTokens (snd (createPasswordResetToken d t tok u)) =
              filter (\<lambda>r. \<not> ?Q r) (passwordResetTokens d)"
    with le PASSWORD_RESET show ?thesis by (simp add: live_count_def)
  next
    assume "\<exists>row. pr_userId row = u
              \<and> passwordResetTokens (snd (createPasswordResetToken d t tok u)) =
                filter (\<lambda>r. \<not> ?Q r) (passwordResetTokens d) @ [row]"
    then obtain row where "pr_userId row = u"
      and "passwordResetTokens (snd (createPasswordResetToken d t tok u)) =
             filter (\<lambda>r. \<not> ?Q r) (passwordResetTokens d) @ [row]" by blast
    with le ne PASSWORD_RESET show ?thesis by (simp add: live_count_def)
  qed
qed

text \<open>Consuming, sweeping and revoking never add a live token.\<close>

lemma live_count_consume_email:
  "live_count (snd (verifyEmailVerificationToken d t tok)) now u k \<le> live_count d now u k"
proof -
  have "length (filter (\<lambda>r. vt_userId r = u \<and> vt_type r = EMAIL_VERIFICATION \<and> vt_live now r)
                  (map (\<lambda>r. if vt_id r = i then r\<lparr>vt_usedAt := Some t\<rparr> else r) xs))
          \<le> length (filter (\<lambda>r. vt_userId r = u \<and> vt_type r = EMAIL_VERIFICATION \<and> vt_live now r) xs)"
    for i xs
    by (rule length_filter_map_le) (auto simp: vt_live_def split: if_splits)
  then show ?thesis
    by (cases k)
       (auto simp: verifyEmailVerificationToken_def vt_update_usedAt_def live_count_def
             split: option.splits sum.splits if_splits)
qed

lemma live_count_consume_reset:
  "live_count (snd (verifyPasswordResetToken d t tok)) now u k \<le> live_count d now u k"
proof -
  have "length (filter (\<lambda>r. pr_userId r = u \<and> pr_live now r)
                  (map (\<lambda>r. if pr_id r = i then r\<lparr>pr_usedAt := Some t\<rparr> else r) xs))
          \<le> length (filter (\<lambda>r. pr_userId r = u \<and> pr_live now r) xs)"
    for i xs
    by (rule length_filter_map_le) (auto simp: pr_live_def split: if_splits)
  then show ?thesis
    by (cases k)
       (auto simp: verifyPasswordResetToken_def pr_update_usedAt_def live_count_def
             split: option.splits sum.splits if_splits)
qed

lemma live_count_sweep:
  "live_count (snd (cleanupExpiredTokens d t)) now u k \<le> live_count d now u k"
  by (cases k)
     (simp_all add: cleanupExpiredTokens_def Let_def live_count_def length_filter_conj_le)

lemma live_count_revoke:
  "live_count (snd (revokeAllUserTokens d t v)) now u k \<le> live_count d now u k"
proof -
  have a: "length (filter (\<lambda>r. vt_userId r = u \<and> vt_type r = EMAIL_VERIFICATION \<and> vt_live now r)
                  (map (\<lambda>r. if vt_userId r = v \<and> vt_usedAt r = None
                            then r\<lparr>vt_usedAt := Some t\<rparr> else r) xs))
          \<le> length (filter (\<lambda>r. vt_userId r = u \<and> vt_type r = EMAIL_VERIFICATION \<and> vt_live now r) xs)"
    for xs
    by (rule length_filter_map_le) (auto simp: vt_live_def split: if_splits)
  have b: "length (filter (\<lambda>r. pr_userId r = u \<and> pr_live now r)
                  (map (\<lambda>r. if pr_userId r = v \<and> pr_usedAt r = None
                            then r\<lparr>pr_usedAt := Some t\<rparr> else r) xs))
          \<le> length (filter (\<lambda>r. pr_userId r = u \<and> pr_live now r) xs)"
    for xs
    by (rule length_filter_map_le) (auto simp: pr_live_def split: if_splits)
  show ?thesis
    using a [of "verificationTokens d"] b [of "passwordResetTokens d"]
    by (cases k) (simp_all add: revokeAllUserTokens_def Let_def live_count_def del: filter_map)
qed

lemma snd_issue:
  "snd (issue d t tok u k) =
     (case k of EMAIL_VERIFICATION \<Rightarrow> snd (createEmailVerificationToken d t tok u)
              | PASSWORD_RESET \<Rightarrow> snd (createPasswordResetToken d t tok u))"
  by (cases k; cases "createEmailVerificationToken d t tok u";
      cases "createPasswordResetToken d t tok u")
     (auto simp: issue_def split: sum.splits prod.splits)

lemma issue_email_rows:
  assumes "r \<in> set (verificationTokens (snd (createEmailVerificationToken d t tok u)))"
    and "vt_userId r = u" and "vt_type r = EMAIL_VERIFICATION"
  shows "vt_token r = tok \<and> vt_usedAt r = None \<and> vt_expiresAt r = t + 86400000"
  using assms
  by (auto simp: createEmailVerificationToken_def Let_def split: if_splits option.splits)

lemma issue_reset_rows:
  assumes "r \<in> set (passwordResetTokens (snd (createPasswordResetToken d t tok u)))"
    and "pr_userId r = u"
  shows "pr_token r = tok \<and> pr_usedAt r = None \<and> pr_expiresAt r = t + 3600000"
  using assms
  by (auto simp: createPasswordResetToken_def Let_def split: if_splits option.splits)

lemma issue_as_stmts: "snd (issue d t tok u k) = exec_stmts d (issue_stmts t tok u k)"
  by (cases k)
     (auto simp: snd_issue exec_stmts_def issue_stmts_def createEmailVerificationToken_def
                 createPasswordResetToken_def Let_def findUser_def split: option.splits)

lemma live_count_stmt:
  assumes "\<forall>tok v ex. s \<noteq> VtCreate tok v ex" and "\<forall>tok v ex. s \<noteq> PrCreate tok v ex"
  shows "live_count (exec_stmt d s) now u k \<le> live_count d now u k"
proof -
  have vm: "length (filter (\<lambda>r. vt_userId r = u \<and> vt_type r = EMAIL_VERIFICATION \<and> vt_live now r)
                  (map f xs))
          \<le> length (filter (\<lambda>r. vt_userId r = u \<and> vt_type r = EMAIL_VERIFICATION \<and> vt_live now r) xs)"
    if "\<And>r. f r = r \<or> f r = r\<lparr>vt_usedAt := Some t\<rparr>" for f xs t
  proof (rule length_filter_map_le)
    fix x assume "vt_userId (f x) = u \<and> vt_type (f x) = EMAIL_VERIFICATION \<and> vt_live now (f x)"
    with that [of x] show "vt_userId x = u \<and> vt_type x = EMAIL_VERIFICATION \<and> vt_live now x"
      by (auto simp: vt_live_def)
  qed
  have pm: "length (filter (\<lambda>r. pr_userId r = u \<and> pr_live now r) (map f xs))
          \<le> length (filter (\<lambda>r. pr_userId r = u \<and> pr_live now r) xs)"
    if "\<And>r. f r = r \<or> f r = r\<lparr>pr_usedAt := Some t\<rparr>" for f xs t
  proof (rule length_filter_map_le)
    fix x assume "pr_userId (f x) = u \<and> pr_live now (f x)"
    with that [of x] show "pr_userId x = u \<and> pr_live now x"
      by (auto simp: pr_live_def)
  qed
  show ?thesis
  proof (cases s)
    case (VtDeleteMany v)
    then show ?thesis
      by (cases k) (simp_all add: live_count_def length_filter_conj_le length_filter_filter_le
                             del: filter_filter)
  next
    case (VtCreate tok v ex)
    with assms show ?thesis by simp
  next
    case (VtUpdateUsed rid t)
    have "length (filter (\<lambda>r. vt_userId r = u \<and> vt_type r = EMAIL_VERIFICATION \<and> vt_live now r)
             (map (\<lambda>r. if vt_id r = rid then r\<lparr>vt_usedAt := Some t\<rparr> else r) (verificationTokens d)))
          \<le> length (filter (\<lambda>r. vt_userId r = u \<and> vt_type r = EMAIL_VERIFICATION \<and> vt_live now r)
             (verificationTokens d))"
      by (rule vm [of _ t]) simp
    with VtUpdateUsed show ?thesis
      by (cases k) (simp_all add: live_count_def vt_update_usedAt_def del: filter_map)
  next
    case (VtDeleteExpired t)
    then show ?thesis
      by (cases k) (simp_all add: live_count_def length_filter_filter_le del: filter_filter)
  next
    case (VtRevoke v t)
    have "length (filter (\<lambda>r. vt_userId r = u \<and> vt_type r = EMAIL_VERIFICATION \<and> vt_live now r)
             (map (\<lambda>r. if vt_userId r = v \<and> vt_usedAt r = None then r\<lparr>vt_usedAt := Some t\<rparr> else r)
                  (verificationTokens d)))
          \<le> length (filter (\<lambda>r. vt_userId r = u \<and> vt_type r = EMAIL_VERIFICATION \<and> vt_live now r)
             (verificationTokens d))"
      by (rule vm [of _ t]) simp
    with VtRevoke show ?thesis
      by (cases k) (simp_all add: live_count_def del: filter_map)
  next
    case (PrDeleteMany v)
    then show ?thesis
      by (cases k) (simp_all add: live_count_def length_filter_filter_le del: filter_filter)
  next
    case (PrCreate tok v ex)
    with assms show ?thesis by simp
  next
    case (PrUpdateUsed rid t)
    have "length (filter (\<lambda>r. pr_userId r = u \<and> pr_live now r)
             (map (\<lambda>r. if pr_id r = rid then r\<lparr>pr_usedAt := Some t\<rparr> else r) (passwordResetTokens d)))
          \<le> length (filter (\<lambda>r. pr_userId r = u \<and> pr_live now r) (passwordResetTokens d))"
      by (rule pm [of _ t]) simp
    with PrUpdateUsed show ?thesis
      by (cases k) (simp_all add: live_count_def pr_update_usedAt_def del: filter_map)
  next
    case (PrDeleteExpired t)
    then show ?thesis
      by (cases k) (simp_all add: live_count_def length_filter_filter_le del: filter_filter)
  next
    case (PrRevoke v t)
    have "length (filter (\<lambda>r. pr_userId r = u \<and> pr_live now r)
             (map (\<lambda>r. if pr_userId r = v \<and> pr_usedAt r = None then r\<lparr>pr_usedAt := Some t\<rparr> else r)
                  (passwordResetTokens d)))
          \<le> length (filter (\<lambda>r. pr_userId r = u \<and> pr_live now r) (passwordResetTokens d))"
      by (rule pm [of _ t]) simp
    with PrRevoke show ?thesis
      by (cases k) (simp_all add: live_count_def del: filter_map)
  qed
qed

lemma live_count_create:
  "live_count (exec_stmt d (VtCreate tok v ex)) now u k
     \<le> live_count d now u k + (if u = v \<and> k = EMAIL_VERIFICATION then 1 else 0)"
  "live_count (exec_stmt d (PrCreate tok v ex)) now u k
     \<le> live_count d now u k + (if u = v \<and> k = PASSWORD_RESET then 1 else 0)"
  by (cases k; simp add: live_count_def)+

lemma exec_stmt_safe:
  assumes inv: "at_most_one_live d now" and safe: "stmt_safe d now s"
  shows "at_most_one_live (exec_stmt d s) now"
  unfolding at_most_one_live_def
proof (intro allI)
  fix u k
  from inv have le: "live_count d now u k \<le> 1" by (simp add: at_most_one_live_def)
  show "live_count (exec_stmt d s) now u k \<le> 1"
  proof (cases "(\<exists>tok v ex. s = VtCreate tok v ex) \<or> (\<exists>tok v ex. s = PrCreate tok v ex)")
    case False
    then have "live_count (exec_stmt d s) now u k \<le> live_count d now u k"
      by (intro live_count_stmt) auto
    with le show ?thesis by simp
  next
    case True
    then show ?thesis
    proof
      assume "\<exists>tok v ex. s = VtCreate tok v ex"
      then obtain tok v ex where s: "s = VtCreate tok v ex" by blast
      with safe have z: "live_count d now v EMAIL_VERIFICATION = 0" by (simp add: stmt_safe_def)
      from live_count_create(1) [of d tok v ex now u k] le z s show ?thesis
        by (auto split: if_splits)
    next
      assume "\<exists>tok v ex. s = PrCreate tok v ex"
      then obtain tok v ex where s: "s = PrCreate tok v ex" by blast
      with safe have z: "live_count d now v PASSWORD_RESET = 0" by (simp add: stmt_safe_def)
      from live_count_create(2) [of d tok v ex now u k] le z s show ?thesis
        by (auto split: if_splits)
    qed
  qed
qed

lemma functions_preserve:
  assumes inv: "at_most_one_live d now"
  shows "at_most_one_live (snd (issue d t tok u k)) now"
    and "at_most_one_live (snd (consume d t tok k)) now"
    and "at_most_one_live (snd (cleanupExpiredTokens d t)) now"
    and "at_most_one_live (snd (revokeAllUserTokens d t u)) now"
proof -
  have le: "live_count d now u' k' \<le> 1" for u' k'
    using inv by (simp add: at_most_one_live_def)
  show "at_most_one_live (snd (issue d t tok u k)) now"
    unfolding at_most_one_live_def
  proof (intro allI)
    fix u' k'
    show "live_count (snd (issue d t tok u k)) now u' k' \<le> 1"
    proof (cases k)
      case EMAIL_VERIFICATION
      show ?thesis
      proof (cases "(u', k') = (u, EMAIL_VERIFICATION)")
        case True
        with EMAIL_VERIFICATION live_count_issue_email_owner [of d t tok u now]
        show ?thesis by (simp add: snd_issue)
      next
        case False
        from live_count_issue_email_other [OF False, of d t tok now] le [of u' k']
          EMAIL_VERIFICATION
        show ?thesis by (simp add: snd_issue)
      qed
    next
      case PASSWORD_RESET
      show ?thesis
      proof (cases "(u', k') = (u, PASSWORD_RESET)")
        case True
        with PASSWORD_RESET live_count_issue_reset_owner [of d t tok u now]
        show ?thesis by (simp add: snd_issue)
      next
        case False
        from live_count_issue_reset_other [OF False, of d t tok now] le [of u' k']
          PASSWORD_RESET
        show ?thesis by (simp add: snd_issue)
      qed
    qed
  qed
  show "at_most_one_live (snd (consume d t tok k)) now"
    unfolding at_most_one_live_def
  proof (intro allI)
    fix u' k'
    from live_count_consume_email [of d t tok now u' k']
         live_count_consume_reset [of d t tok now u' k'] le [of u' k']
    show "live_count (snd (consume d t tok k)) now u' k' \<le> 1"
      by (cases k) (simp_all add: consume_def)
  qed
  show "at_most_one_live (snd (cleanupExpiredTokens d t)) now"
    unfolding at_most_one_live_def
  proof (intro allI)
    fix u' k'
    from live_count_sweep [of d t now u' k'] le [of u' k']
    show "live_count (snd (cleanupExpiredTokens d t)) now u' k' \<le> 1" by simp
  qed
  show "at_most_one_live (snd (revokeAllUserTokens d t u)) now"
    unfolding at_most_one_live_def
  proof (intro allI)
    fix u' k'
    from live_count_revoke [of d t u now u' k'] le [of u' k']
    show "live_count (snd (revokeAllUserTokens d t u)) now u' k' \<le> 1" by simp
  qed
qed

lemma functions_as_stmts:
  "snd (cleanupExpiredTokens d t) = exec_stmts d [VtDeleteExpired t, PrDeleteExpired t]"
  "snd (revokeAllUserTokens d t u) = exec_stmts d [VtRevoke u t, PrRevoke u t]"
  "snd (consume d t tok k) = d
   \<or> (\<exists>rid. snd (consume d t tok k) = exec_stmt d (VtUpdateUsed rid t))
   \<or> (\<exists>rid. snd (consume d t tok k) = exec_stmt d (PrUpdateUsed rid t))"
proof -
  show "snd (cleanupExpiredTokens d t) = exec_stmts d [VtDeleteExpired t, PrDeleteExpired t]"
    by (simp add: cleanupExpiredTokens_def Let_def exec_stmts_def)
  show "snd (revokeAllUserTokens d t u) = exec_stmts d [VtRevoke u t, PrRevoke u t]"
    by (simp add: revokeAllUserTokens_def Let_def exec_stmts_def)
  show "snd (consume d t tok k) = d
   \<or> (\<exists>rid. snd (consume d t tok k) = exec_stmt d (VtUpdateUsed rid t))
   \<or> (\<exists>rid. snd (consume d t tok k) = exec_stmt d (PrUpdateUsed rid t))"
  proof (cases k)
    case EMAIL_VERIFICATION
    show ?thesis
    proof (cases "vt_findFirst d t tok")
      case None
      with EMAIL_VERIFICATION show ?thesis
        by (simp add: consume_def verifyEmailVerificationToken_def)
    next
      case (Some r)
      have "snd (consume d t tok k) = exec_stmt d (VtUpdateUsed (vt_id r) t) \<or> snd (consume d t tok k) = d"
        using EMAIL_VERIFICATION Some
        by (cases "vt_update_usedAt d (vt_id r) t")
           (simp_all add: consume_def verifyEmailVerificationToken_def)
      then show ?thesis by blast
    qed
  next
    case PASSWORD_RESET
    show ?thesis
    proof (cases "pr_findFirst d t tok")
      case None
      with PASSWORD_RESET show ?thesis
        by (simp add: consume_def verifyPasswordResetToken_def)
    next
      case (Some r)
      have "snd (consume d t tok k) = exec_stmt d (PrUpdateUsed (pr_id r) t) \<or> snd (consume d t tok k) = d"
        using PASSWORD_RESET Some
        by (cases "pr_update_usedAt d (pr_id r) t")
           (simp_all add: consume_def verifyPasswordResetToken_def)
      then show ?thesis by blast
    qed
  qed
qed

text \<open>
  C7 (as the code has it).  A call of \<open>issue\<close> is the two statements \<open>deleteMany\<close>
  and \<open>create\<close>.  When no other statement runs between them, the user has at most one
  live token of that kind afterwards, and every row of that kind that the user owns is
  the new, unused token.  Each function of the token store, run as a whole, preserves
  "at most one live token per user and kind", and so does every single statement
  except a \<open>create\<close> that runs while its user already holds a live token of that kind.
\<close>

theorem one_live_token_without_interleaving:
  "snd (issue d t tok u k) = exec_stmts d (issue_stmts t tok u k)
   \<and> live_count (snd (issue d t tok u k)) now u k \<le> 1
   \<and> (\<forall>r \<in> set (verificationTokens (snd (issue d t tok u EMAIL_VERIFICATION))).
         vt_userId r = u \<and> vt_type r = EMAIL_VERIFICATION
         \<longrightarrow> vt_token r = tok \<and> vt_usedAt r = None \<and> vt_expiresAt r = t + 86400000)
   \<and> (\<forall>r \<in> set (passwordResetTokens (snd (issue d t tok u PASSWORD_RESET))).
         pr_userId r = u
         \<longrightarrow> pr_token r = tok \<and> pr_usedAt r = None \<and> pr_expiresAt r = t + 3600000)
   \<and> (at_most_one_live d now \<longrightarrow>
         at_most_one_live (snd (issue d t tok u k)) now
         \<and> at_most_one_live (snd (consume d t tok k)) now
         \<and> at_most_one_live (snd (cleanupExpiredTokens d t)) now
         \<and> at_most_one_live (snd (revokeAllUserTokens d t u)) now)
   \<and> (at_most_one_live d now \<and> stmt_safe d now s \<longrightarrow> at_most_one_live (exec_stmt d s) now)"
proof (intro conjI)
  show "snd (issue d t tok u k) = exec_stmts d (issue_stmts t tok u k)"
    by (rule issue_as_stmts)
  show "live_count (snd (issue d t tok u k)) now u k \<le> 1"
    using live_count_issue_email_owner [of d t tok u now]
          live_count_issue_reset_owner [of d t tok u now]
    by (cases k) (simp_all add: snd_issue)
  show "\<forall>r \<in> set (verificationTokens (snd (issue d t tok u EMAIL_VERIFICATION))).
          vt_userId r = u \<and> vt_type r = EMAIL_VERIFICATION
          \<longrightarrow> vt_token r = tok \<and> vt_usedAt r = None \<and> vt_expiresAt r = t + 86400000"
    using issue_email_rows [of _ d t tok u] by (simp add: snd_issue)
  show "\<forall>r \<in> set (passwordResetTokens (snd (issue d t tok u PASSWORD_RESET))).
          pr_userId r = u
          \<longrightarrow> pr_token r = tok \<and> pr_usedAt r = None \<and> pr_expiresAt r = t + 3600000"
    using issue_reset_rows [of _ d t tok u] by (simp add: snd_issue)
  show "at_most_one_live d now \<longrightarrow>
         at_most_one_live (snd (issue d t tok u k)) now
         \<and> at_most_one_live (snd (consume d t tok k)) now
         \<and> at_most_one_live (snd (cleanupExpiredTokens d t)) now
         \<and> at_most_one_live (snd (revokeAllUserTokens d t u)) now"
    using functions_preserve by blast
  show "at_most_one_live d now \<and> stmt_safe d now s \<longrightarrow> at_most_one_live (exec_stmt d s) now"
    using exec_stmt_safe by blast
qed

lemma db1_at_most_one_live: "at_most_one_live db1 now"
  unfolding at_most_one_live_def
proof (intro allI)
  fix u k
  show "live_count db1 now u k \<le> 1"
    by (cases k) (simp_all add: live_count_def db1_def db0_def)
qed

theorem one_live_token_without_interleaving_witness:
  "at_most_one_live db1 5
   \<and> at_most_one_live (snd (issue db1 7 ''cc33'' ''clx0a1'' EMAIL_VERIFICATION)) 5
   \<and> at_most_one_live (snd (consume db1 7 ''aa11'' EMAIL_VERIFICATION)) 5
   \<and> stmt_safe db1 5 (PrCreate ''dd44'' ''clx0a1'' 3600007)
   \<and> at_most_one_live (exec_stmt db1 (PrCreate ''dd44'' ''clx0a1'' 3600007)) 5
   \<and> at_most_one_live (exec_stmt db1 (VtRevoke ''clx0a1'' 7)) 5
   \<and> map vt_token (verificationTokens (snd (issue db1 7 ''cc33'' ''clx0a1'' EMAIL_VERIFICATION)))
       = [''cc33'']
   \<and> map pr_token (passwordResetTokens (snd (issue db1 7 ''dd44'' ''clx0b2'' PASSWORD_RESET)))
       = [''dd44'']"
proof -
  note inv = db1_at_most_one_live [of 5]
  have safe: "stmt_safe db1 5 (PrCreate ''dd44'' ''clx0a1'' 3600007)"
    by (simp add: stmt_safe_def live_count_def db1_def db0_def)
  have safe': "stmt_safe db1 5 (VtRevoke ''clx0a1'' 7)"
    by (simp add: stmt_safe_def)
  from one_live_token_without_interleaving
         [of db1 7 "''cc33''" "''clx0a1''" EMAIL_VERIFICATION 5 "PrCreate ''dd44'' ''clx0a1'' 3600007"]
       inv safe
  have a: "at_most_one_live (snd (issue db1 7 ''cc33'' ''clx0a1'' EMAIL_VERIFICATION)) 5"
    and b: "at_most_one_live (exec_stmt db1 (PrCreate ''dd44'' ''clx0a1'' 3600007)) 5"
    by blast+
  from one_live_token_without_interleaving
         [of db1 7 "''aa11''" "''clx0a1''" EMAIL_VERIFICATION 5 "VtRevoke ''clx0a1'' 7"]
       inv safe'
  have c: "at_most_one_live (snd (consume db1 7 ''aa11'' EMAIL_VERIFICATION)) 5"
    and e: "at_most_one_live (exec_stmt db1 (VtRevoke ''clx0a1'' 7)) 5"
    by blast+
  have f: "map vt_token (verificationTokens
             (snd (issue db1 7 ''cc33'' ''clx0a1'' EMAIL_VERIFICATION))) = [''cc33'']"
    by (simp add: snd_issue createEmailVerificationToken_def Let_def db1_def db0_def
                  findUser_def alice_def bob_def)
  have g: "map pr_token (passwordResetTokens
             (snd (issue db1 7 ''dd44'' ''clx0b2'' PASSWORD_RESET))) = [''dd44'']"
    by (simp add: snd_issue createPasswordResetToken_def Let_def db1_def db0_def
                  findUser_def alice_def bob_def)
  from inv safe a b c e f g show ?thesis by blast
qed

text \<open>
  Two calls of \<open>issue\<close> for the same user, at times 7 and 8, whose statements run in
  the order deleteMany, deleteMany, create, create: the user ends with two live reset
  tokens, and both are then consumed with success.
\<close>

theorem overlapping_issue_counterexample:
  "issue_stmts 7 ''dd44'' ''clx0b2'' PASSWORD_RESET
     = [PrDeleteMany ''clx0b2'', PrCreate ''dd44'' ''clx0b2'' 3600007]
   \<and> issue_stmts 8 ''ee55'' ''clx0b2'' PASSWORD_RESET
     = [PrDeleteMany ''clx0b2'', PrCreate ''ee55'' ''clx0b2'' 3600008]
   \<and> live_count (exec_stmts db1 [PrDeleteMany ''clx0b2'', PrDeleteMany ''clx0b2'',
                                   PrCreate ''dd44'' ''clx0b2'' 3600007,
                                   PrCreate ''ee55'' ''clx0b2'' 3600008])
        9 ''clx0b2'' PASSWORD_RESET = 2
   \<and> \<not> at_most_one_live (exec_stmts db1 [PrDeleteMany ''clx0b2'', PrDeleteMany ''clx0b2'',
                                   PrCreate ''dd44'' ''clx0b2'' 3600007,
                                   PrCreate ''ee55'' ''clx0b2'' 3600008]) 9
   \<and> fst (consume (exec_stmts db1 [PrDeleteMany ''clx0b2'', PrDeleteMany ''clx0b2'',
                                   PrCreate ''dd44'' ''clx0b2'' 3600007,
                                   PrCreate ''ee55'' ''clx0b2'' 3600008])
             9 ''dd44'' PASSWORD_RESET) = Inr (Some bob)
   \<and> fst (consume (snd (consume (exec_stmts db1 [PrDeleteMany ''clx0b2'', PrDeleteMany ''clx0b2'',
                                   PrCreate ''dd44'' ''clx0b2'' 3600007,
                                   PrCreate ''ee55'' ''clx0b2'' 3600008])
             9 ''dd44'' PASSWORD_RESET)) 10 ''ee55'' PASSWORD_RESET) = Inr (Some bob)"
proof -
  define D where "D = exec_stmts db1 [PrDeleteMany ''clx0b2'', PrDeleteMany ''clx0b2'',
                                   PrCreate ''dd44'' ''clx0b2'' 3600007,
                                   PrCreate ''ee55'' ''clx0b2'' 3600008]"
  have D: "D = db1\<lparr>passwordResetTokens :=
                    [\<lparr>pr_id = 2, pr_userId = ''clx0b2'', pr_token = ''dd44'',
                      pr_expiresAt = 3600007, pr_usedAt = None\<rparr>,
                     \<lparr>pr_id = 3, pr_userId = ''clx0b2'', pr_token = ''ee55'',
                      pr_expiresAt = 3600008, pr_usedAt = None\<rparr>],
                  nextId := 4\<rparr>"
    by (simp add: D_def exec_stmts_def db1_def db0_def findUser_def alice_def bob_def)
  have 1: "live_count D 9 ''clx0b2'' PASSWORD_RESET = 2"
    by (simp add: D live_count_def pr_live_def)
  then have 2: "\<not> at_most_one_live D 9"
    by (auto simp: at_most_one_live_def intro!: exI [of _ "''clx0b2''"] exI [of _ PASSWORD_RESET])
  have 3: "consume D 9 ''dd44'' PASSWORD_RESET
             = (Inr (Some bob),
                db1\<lparr>passwordResetTokens :=
                    [\<lparr>pr_id = 2, pr_userId = ''clx0b2'', pr_token = ''dd44'',
                      pr_expiresAt = 3600007, pr_usedAt = Some 9\<rparr>,
                     \<lparr>pr_id = 3, pr_userId = ''clx0b2'', pr_token = ''ee55'',
                      pr_expiresAt = 3600008, pr_usedAt = None\<rparr>],
                  nextId := 4\<rparr>)"
    by (simp add: D consume_def verifyPasswordResetToken_def pr_findFirst_def
          pr_update_usedAt_def db1_def db0_def findUser_def alice_def bob_def)
  have 4: "fst (consume (snd (consume D 9 ''dd44'' PASSWORD_RESET)) 10 ''ee55'' PASSWORD_RESET)
             = Inr (Some bob)"
    unfolding 3
    by (simp add: consume_def verifyPasswordResetToken_def pr_findFirst_def
          pr_update_usedAt_def db1_def db0_def findUser_def alice_def bob_def)
  have 5: "issue_stmts 7 ''dd44'' ''clx0b2'' PASSWORD_RESET
             = [PrDeleteMany ''clx0b2'', PrCreate ''dd44'' ''clx0b2'' 3600007]"
          "issue_stmts 8 ''ee55'' ''clx0b2'' PASSWORD_RESET
             = [PrDeleteMany ''clx0b2'', PrCreate ''ee55'' ''clx0b2'' 3600008]"
    by (simp_all add: issue_stmts_def)
  from 1 2 3 4 5 show ?thesis unfolding D_def [symmetric] by simp
qed

lemma find_the_only:
  assumes "x \<in> set xs" and "P x" and "\<forall>y \<in> set xs. P y \<longrightarrow> y = x"
  shows "find P xs = Some x"
  using assms
proof (induction xs)
  case Nil
  then show ?case by simp
next
  case (Cons a xs)
  show ?case
  proof (cases "P a")
    case True
    with Cons.prems have "a = x" by simp
    with True show ?thesis by simp
  next
    case False
    with Cons.prems have "x \<in> set xs" by auto
    moreover from Cons.prems have "\<forall>y \<in> set xs. P y \<longrightarrow> y = x" by simp
    ultimately have "find P xs = Some x" using Cons.IH Cons.prems(2) by blast
    with False show ?thesis by simp
  qed
qed


lemma consume_email_live:
  assumes mem: "row \<in> set (verificationTokens d)"
    and only: "\<forall>y \<in> set (verificationTokens d). vt_token y = tok \<longrightarrow> y = row"
    and tk: "vt_token row = tok" and ty: "vt_type row = EMAIL_VERIFICATION"
    and lv: "vt_live t1 row"
  shows "\<exists>d2. verifyEmailVerificationToken d t1 tok = (Inr (findUser d (vt_userId row)), d2)
           \<and> set (usedAt_of d2 tok EMAIL_VERIFICATION) = {Some t1}
           \<and> (\<forall>t2. verifyEmailVerificationToken d2 t2 tok = (Inr None, d2))"
proof -
  define mark where "mark = (\<lambda>r::verification_token. if vt_id r = vt_id row then r\<lparr>vt_usedAt := Some t1\<rparr> else r)"
  define T where "T = map mark (verificationTokens d)"
  define d2 where "d2 = d\<lparr>verificationTokens := T\<rparr>"
  let ?P = "\<lambda>r. vt_token r = tok \<and> vt_type r = EMAIL_VERIFICATION \<and> vt_usedAt r = None
                 \<and> t1 < vt_expiresAt r"
  have "?P row" using tk ty lv by (simp add: vt_live_def)
  moreover have "\<forall>y \<in> set (verificationTokens d). ?P y \<longrightarrow> y = row" using only by blast
  ultimately have f: "vt_findFirst d t1 tok = Some row"
    unfolding vt_findFirst_def using mem by (intro find_the_only)
  have u: "vt_update_usedAt d (vt_id row) t1 = Inr d2"
    using mem unfolding vt_update_usedAt_def d2_def T_def mark_def by auto
  have v: "verifyEmailVerificationToken d t1 tok = (Inr (findUser d (vt_userId row)), d2)"
    by (simp add: verifyEmailVerificationToken_def f u)
  have mark_tok: "vt_token (mark r) = vt_token r" for r by (simp add: mark_def)
  have mark_row: "vt_usedAt (mark row) = Some t1" by (simp add: mark_def)
  have marked: "vt_usedAt r' = Some t1" if "r' \<in> set T" and t: "vt_token r' = tok" for r'
  proof -
    from that obtain r where r: "r \<in> set (verificationTokens d)" and e: "r' = mark r"
      unfolding T_def by auto
    from t e have "vt_token r = tok" using mark_tok [of r] by simp
    with r only have "r = row" by blast
    with e mark_row show ?thesis by simp
  qed
  have "mark row \<in> set T" using mem by (simp add: T_def)
  moreover have "vt_token (mark row) = tok" using tk mark_tok by simp
  ultimately have present: "\<exists>r \<in> set T. vt_token r = tok" by blast
  have "set (usedAt_of d2 tok EMAIL_VERIFICATION) = vt_usedAt ` {r \<in> set T. vt_token r = tok}"
    by (simp add: usedAt_of_def d2_def)
  also have "\<dots> = {Some t1}"
  proof -
    have "vt_usedAt ` {r \<in> set T. vt_token r = tok} \<subseteq> {Some t1}"
      using marked by blast
    moreover from present obtain r where "r \<in> set T" and "vt_token r = tok" by blast
    then have "Some t1 \<in> vt_usedAt ` {r \<in> set T. vt_token r = tok}"
      using marked [of r] by force
    ultimately show ?thesis by blast
  qed
  finally have used: "set (usedAt_of d2 tok EMAIL_VERIFICATION) = {Some t1}" .
  have again: "verifyEmailVerificationToken d2 t2 tok = (Inr None, d2)" for t2
  proof -
    have "\<not> (\<exists>x. x \<in> set T \<and> vt_token x = tok \<and> vt_type x = EMAIL_VERIFICATION
                  \<and> vt_usedAt x = None \<and> t2 < vt_expiresAt x)"
      using marked by fastforce
    then have "vt_findFirst d2 t2 tok = None"
      unfolding vt_findFirst_def find_None_iff by (simp add: d2_def)
    then show ?thesis by (simp add: verifyEmailVerificationToken_def)
  qed
  from v used again show ?thesis by blast
qed

lemma consume_reset_live:
  assumes mem: "row \<in> set (passwordResetTokens d)"
    and only: "\<forall>y \<in> set (passwordResetTokens d). pr_token y = tok \<longrightarrow> y = row"
    and tk: "pr_token row = tok"
    and lv: "pr_live t1 row"
  shows "\<exists>d2. verifyPasswordResetToken d t1 tok = (Inr (findUser d (pr_userId row)), d2)
           \<and> set (usedAt_of d2 tok PASSWORD_RESET) = {Some t1}
           \<and> (\<forall>t2. verifyPasswordResetToken d2 t2 tok = (Inr None, d2))"
proof -
  define mark where "mark = (\<lambda>r::password_reset_token. if pr_id r = pr_id row then r\<lparr>pr_usedAt := Some t1\<rparr> else r)"
  define T where "T = map mark (passwordResetTokens d)"
  define d2 where "d2 = d\<lparr>passwordResetTokens := T\<rparr>"
  let ?P = "\<lambda>r. pr_token r = tok \<and> pr_usedAt r = None
                 \<and> t1 < pr_expiresAt r"
  have "?P row" using tk lv by (simp add: pr_live_def)
  moreover have "\<forall>y \<in> set (passwordResetTokens d). ?P y \<longrightarrow> y = row" using only by blast
  ultimately have f: "pr_findFirst d t1 tok = Some row"
    unfolding pr_findFirst_def using mem by (intro find_the_only)
  have u: "pr_update_usedAt d (pr_id row) t1 = Inr d2"
    using mem unfolding pr_update_usedAt_def d2_def T_def mark_def by auto
  have v: "verifyPasswordResetToken d t1 tok = (Inr (findUser d (pr_userId row)), d2)"
    by (simp add: verifyPasswordResetToken_def f u)
  have mark_tok: "pr_token (mark r) = pr_token r" for r by (simp add: mark_def)
  have mark_row: "pr_usedAt (mark row) = Some t1" by (simp add: mark_def)
  have marked: "pr_usedAt r' = Some t1" if "r' \<in> set T" and t: "pr_token r' = tok" for r'
  proof -
    from that obtain r where r: "r \<in> set (passwordResetTokens d)" and e: "r' = mark r"
      unfolding T_def by auto
    from t e have "pr_token r = tok" using mark_tok [of r] by simp
    with r only have "r = row" by blast
    with e mark_row show ?thesis by simp
  qed
  have "mark row \<in> set T" using mem by (simp add: T_def)
  moreover have "pr_token (mark row) = tok" using tk mark_tok by simp
  ultimately have present: "\<exists>r \<in> set T. pr_token r = tok" by blast
  have "set (usedAt_of d2 tok PASSWORD_RESET) = pr_usedAt ` {r \<in> set T. pr_token r = tok}"
    by (simp add: usedAt_of_def d2_def)
  also have "\<dots> = {Some t1}"
  proof -
    have "pr_usedAt ` {r \<in> set T. pr_token r = tok} \<subseteq> {Some t1}"
      using marked by blast
    moreover from present obtain r where "r \<in> set T" and "pr_token r = tok" by blast
    then have "Some t1 \<in> pr_usedAt ` {r \<in> set T. pr_token r = tok}"
      using marked [of r] by force
    ultimately show ?thesis by blast
  qed
  finally have used: "set (usedAt_of d2 tok PASSWORD_RESET) = {Some t1}" .
  have again: "verifyPasswordResetToken d2 t2 tok = (Inr None, d2)" for t2
  proof -
    have "\<not> (\<exists>x. x \<in> set T \<and> pr_token x = tok
                  \<and> pr_usedAt x = None \<and> t2 < pr_expiresAt x)"
      using marked by fastforce
    then have "pr_findFirst d2 t2 tok = None"
      unfolding pr_findFirst_def find_None_iff by (simp add: d2_def)
    then show ?thesis by (simp add: verifyPasswordResetToken_def)
  qed
  from v used again show ?thesis by blast
qed

lemma issue_email_success:
  assumes "createEmailVerificationToken d t tok u = (Inr (row, usr), d1)"
  shows "row \<in> set (verificationTokens d1)
         \<and> (\<forall>y \<in> set (verificationTokens d1). vt_token y = tok \<longrightarrow> y = row)
         \<and> vt_token row = tok \<and> vt_type row = EMAIL_VERIFICATION \<and> vt_usedAt row = None
         \<and> vt_expiresAt row = t + 86400000 \<and> vt_userId row = u
         \<and> findUser d1 u = Some usr \<and> u_id usr = u"
proof -
  define F where "F = filter (\<lambda>r. \<not> (vt_userId r = u \<and> vt_type r = EMAIL_VERIFICATION))
                             (verificationTokens d)"
  from assms have fresh: "\<forall>r \<in> set F. vt_token r \<noteq> tok"
    and usr: "find (\<lambda>x. u_id x = u) (users d) = Some usr"
    and row: "row = \<lparr>vt_id = nextId d, vt_userId = u, vt_token = tok,
                      vt_type = EMAIL_VERIFICATION, vt_expiresAt = t + 86400000,
                      vt_usedAt = None\<rparr>"
    and d1: "verificationTokens d1 = F @ [row]" "users d1 = users d"
    unfolding createEmailVerificationToken_def F_def Let_def findUser_def
    by (auto split: if_splits option.splits)
  from usr have "u_id usr = u" by (auto simp: find_Some_iff)
  moreover from fresh d1 have "\<forall>y \<in> set (verificationTokens d1). vt_token y = tok \<longrightarrow> y = row"
    by fastforce
  ultimately show ?thesis using row d1 usr by (simp add: findUser_def)
qed

lemma issue_reset_success:
  assumes "createPasswordResetToken d t tok u = (Inr (row, usr), d1)"
  shows "row \<in> set (passwordResetTokens d1)
         \<and> (\<forall>y \<in> set (passwordResetTokens d1). pr_token y = tok \<longrightarrow> y = row)
         \<and> pr_token row = tok \<and> pr_usedAt row = None
         \<and> pr_expiresAt row = t + 3600000 \<and> pr_userId row = u
         \<and> findUser d1 u = Some usr \<and> u_id usr = u"
proof -
  define F where "F = filter (\<lambda>r. \<not> (pr_userId r = u)) (passwordResetTokens d)"
  from assms have fresh: "\<forall>r \<in> set F. pr_token r \<noteq> tok"
    and usr: "find (\<lambda>x. u_id x = u) (users d) = Some usr"
    and row: "row = \<lparr>pr_id = nextId d, pr_userId = u, pr_token = tok,
                      pr_expiresAt = t + 3600000, pr_usedAt = None\<rparr>"
    and d1: "passwordResetTokens d1 = F @ [row]" "users d1 = users d"
    unfolding createPasswordResetToken_def F_def Let_def findUser_def
    by (auto split: if_splits option.splits)
  from usr have "u_id usr = u" by (auto simp: find_Some_iff)
  moreover from fresh d1 have "\<forall>y \<in> set (passwordResetTokens d1). pr_token y = tok \<longrightarrow> y = row"
    by fastforce
  ultimately show ?thesis using row d1 usr by (simp add: findUser_def)
qed

lemma consume_not_live:
  assumes "\<not> has_live d t tok k"
  shows "consume d t tok k = (Inr None, d)"
proof (cases k)
  case EMAIL_VERIFICATION
  with assms have "vt_findFirst d t tok = None"
    unfolding vt_findFirst_def find_None_iff has_live_def vt_live_def by simp
  with EMAIL_VERIFICATION show ?thesis
    by (simp add: consume_def verifyEmailVerificationToken_def)
next
  case PASSWORD_RESET
  with assms have "pr_findFirst d t tok = None"
    unfolding pr_findFirst_def find_None_iff has_live_def pr_live_def by simp
  with PASSWORD_RESET show ?thesis
    by (simp add: consume_def verifyPasswordResetToken_def)
qed

lemma consume_all_none:
  assumes "\<And>t. consume d t tok k = (Inr None, d)"
  shows "set (consume_all d tok k ts) \<subseteq> {Inr None}"
  using assms by (induction ts) simp_all

text \<open>
  C6.  A token issued at \<open>t0\<close> (of either kind) and consumed at a time \<open>t1\<close> before
  its expiry: the first \<open>consume\<close> returns the owning user and stamps the row with
  \<open>usedAt = t1\<close>; every later \<open>consume\<close> of the same string, at any time, returns
  \<open>null\<close> and leaves the store as it is.  \<open>consume\<close> returns the same \<open>null\<close>
  whenever the store has no live token with that string: not found, expired and used
  are not told apart.
\<close>

theorem consume_exactly_once:
  assumes "issue d0 t0 tok u k = (Inr (tv, ex, usr), d1)" and "t1 < ex"
  shows "(\<exists>d2. consume d1 t1 tok k = (Inr (Some usr), d2) \<and> u_id usr = u \<and> tv = tok
            \<and> set (usedAt_of d2 tok k) = {Some t1}
            \<and> (\<forall>t2. consume d2 t2 tok k = (Inr None, d2))
            \<and> (\<forall>ts. set (consume_all d2 tok k ts) \<subseteq> {Inr None}))
         \<and> (\<forall>d t s. \<not> has_live d t s k \<longrightarrow> consume d t s k = (Inr None, d))"
proof (cases k)
  case EMAIL_VERIFICATION
  from assms(1) EMAIL_VERIFICATION obtain row where
    c: "createEmailVerificationToken d0 t0 tok u = (Inr (row, usr), d1)"
    and tv: "tv = vt_token row" and ex: "ex = vt_expiresAt row"
    by (auto simp: issue_def split: prod.splits sum.splits)
  note s = issue_email_success [OF c]
  from s ex assms(2) have lv: "vt_live t1 row" by (simp add: vt_live_def)
  from s have mem: "row \<in> set (verificationTokens d1)"
    and only: "\<forall>y \<in> set (verificationTokens d1). vt_token y = tok \<longrightarrow> y = row"
    and tk: "vt_token row = tok" and ty: "vt_type row = EMAIL_VERIFICATION"
    and own: "findUser d1 (vt_userId row) = Some usr" and uid: "u_id usr = u"
    by simp_all
  from consume_email_live [OF mem only tk ty lv] own obtain d2 where
    "verifyEmailVerificationToken d1 t1 tok = (Inr (Some usr), d2)"
    "set (usedAt_of d2 tok EMAIL_VERIFICATION) = {Some t1}"
    "\<forall>t2. verifyEmailVerificationToken d2 t2 tok = (Inr None, d2)"
    by auto
  with EMAIL_VERIFICATION have
    1: "consume d1 t1 tok k = (Inr (Some usr), d2)"
    and 2: "set (usedAt_of d2 tok k) = {Some t1}"
    and 3: "\<And>t2. consume d2 t2 tok k = (Inr None, d2)"
    by (simp_all add: consume_def)
  from 3 have 4: "\<forall>ts. set (consume_all d2 tok k ts) \<subseteq> {Inr None}"
    using consume_all_none [of d2 tok k] by blast
  from 1 2 3 4 uid tv tk consume_not_live show ?thesis by blast
next
  case PASSWORD_RESET
  from assms(1) PASSWORD_RESET obtain row where
    c: "createPasswordResetToken d0 t0 tok u = (Inr (row, usr), d1)"
    and tv: "tv = pr_token row" and ex: "ex = pr_expiresAt row"
    by (auto simp: issue_def split: prod.splits sum.splits)
  note s = issue_reset_success [OF c]
  from s ex assms(2) have lv: "pr_live t1 row" by (simp add: pr_live_def)
  from s have mem: "row \<in> set (passwordResetTokens d1)"
    and only: "\<forall>y \<in> set (passwordResetTokens d1). pr_token y = tok \<longrightarrow> y = row"
    and tk: "pr_token row = tok"
    and own: "findUser d1 (pr_userId row) = Some usr" and uid: "u_id usr = u"
    by simp_all
  from consume_reset_live [OF mem only tk lv] own obtain d2 where
    "verifyPasswordResetToken d1 t1 tok = (Inr (Some usr), d2)"
    "set (usedAt_of d2 tok PASSWORD_RESET) = {Some t1}"
    "\<forall>t2. verifyPasswordResetToken d2 t2 tok = (Inr None, d2)"
    by auto
  with PASSWORD_RESET have
    1: "consume d1 t1 tok k = (Inr (Some usr), d2)"
    and 2: "set (usedAt_of d2 tok k) = {Some t1}"
    and 3: "\<And>t2. consume d2 t2 tok k = (Inr None, d2)"
    by (simp_all add: consume_def)
  from 3 have 4: "\<forall>ts. set (consume_all d2 tok k ts) \<subseteq> {Inr None}"
    using consume_all_none [of d2 tok k] by blast
  from 1 2 3 4 uid tv tk consume_not_live show ?thesis by blast
qed

theorem consume_exactly_once_witness:
  "fst (consume (snd (issue db1 7 ''cc33'' ''clx0a1'' EMAIL_VERIFICATION)) 100 ''cc33''
          EMAIL_VERIFICATION) = Inr (Some alice)
   \<and> fst (consume (snd (consume (snd (issue db1 7 ''cc33'' ''clx0a1'' EMAIL_VERIFICATION))
                          100 ''cc33'' EMAIL_VERIFICATION))
               200 ''cc33'' EMAIL_VERIFICATION) = Inr None
   \<and> consume db1 5 ''zz99'' EMAIL_VERIFICATION = (Inr None, db1)
   \<and> consume db1 86400000 ''aa11'' EMAIL_VERIFICATION = (Inr None, db1)
   \<and> consume db1 3600000 ''bb22'' PASSWORD_RESET = (Inr None, db1)"
proof -
  define D1 where "D1 = snd (issue db1 7 ''cc33'' ''clx0a1'' EMAIL_VERIFICATION)"
  have i: "issue db1 7 ''cc33'' ''clx0a1'' EMAIL_VERIFICATION
             = (Inr (''cc33'', 86400007, alice), D1)"
    unfolding D1_def
    by (simp add: issue_def createEmailVerificationToken_def Let_def db1_def db0_def
                  findUser_def alice_def bob_def)
  have lt: "(100::nat) < 86400007" by simp
  note th = consume_exactly_once [OF i lt]
  from th obtain d2 where
    a: "consume D1 100 ''cc33'' EMAIL_VERIFICATION = (Inr (Some alice), d2)"
    and b: "\<forall>t2. consume d2 t2 ''cc33'' EMAIL_VERIFICATION = (Inr None, d2)"
    by blast
  have n1: "\<not> has_live db1 5 ''zz99'' EMAIL_VERIFICATION"
    by (simp add: has_live_def db1_def db0_def)
  have n2: "\<not> has_live db1 86400000 ''aa11'' EMAIL_VERIFICATION"
    by (simp add: has_live_def db1_def db0_def vt_live_def)
  have n3: "\<not> has_live db1 3600000 ''bb22'' PASSWORD_RESET"
    by (simp add: has_live_def db1_def db0_def pr_live_def)
  from th n1 have c1: "consume db1 5 ''zz99'' EMAIL_VERIFICATION = (Inr None, db1)" by blast
  from th n2 have c2: "consume db1 86400000 ''aa11'' EMAIL_VERIFICATION = (Inr None, db1)"
    by blast
  from consume_exactly_once [of db1 0 "''ee55''" "''clx0b2''" PASSWORD_RESET "''ee55''" 3600000 bob
                                _ 1] n3
  have c3: "consume db1 3600000 ''bb22'' PASSWORD_RESET = (Inr None, db1)"
    by (simp add: issue_def createPasswordResetToken_def Let_def db1_def db0_def
                  findUser_def alice_def bob_def)
  from a b c1 c2 c3 show ?thesis unfolding D1_def [symmetric] by simp
qed

subsection \<open>Interleaved consumption\<close>

lemma vt_run_attempt:
  "vt_run d now tok (Start, b) [False, False] =
     ((Returned (fst (verifyEmailVerificationToken d now tok)), b),
      snd (verifyEmailVerificationToken d now tok))"
  "vt_run d now tok (a, Start) [True, True] =
     ((a, Returned (fst (verifyEmailVerificationToken d now tok))),
      snd (verifyEmailVerificationToken d now tok))"
  by (simp_all add: vt_step_def verifyEmailVerificationToken_def
               split: option.splits sum.splits)

lemma pr_run_attempt:
  "pr_run d now tok (Start, b) [False, False] =
     ((Returned (fst (verifyPasswordResetToken d now tok)), b),
      snd (verifyPasswordResetToken d now tok))"
  "pr_run d now tok (a, Start) [True, True] =
     ((a, Returned (fst (verifyPasswordResetToken d now tok))),
      snd (verifyPasswordResetToken d now tok))"
  by (simp_all add: pr_step_def verifyPasswordResetToken_def
               split: option.splits sum.splits)

lemma vt_run_append:
  "vt_run d now tok ab (s @ s') =
     (case vt_run d now tok ab s of (ab', d') \<Rightarrow> vt_run d' now tok ab' s')"
proof (induction s arbitrary: d ab)
  case Nil
  then show ?case by (cases ab) simp
next
  case (Cons x s)
  obtain a b where ab: "ab = (a, b)" by (cases ab)
  show ?case using Cons.IH by (cases x) (simp_all add: ab split: prod.splits)
qed

lemma pr_run_append:
  "pr_run d now tok ab (s @ s') =
     (case pr_run d now tok ab s of (ab', d') \<Rightarrow> pr_run d' now tok ab' s')"
proof (induction s arbitrary: d ab)
  case Nil
  then show ?case by (cases ab) simp
next
  case (Cons x s)
  obtain a b where ab: "ab = (a, b)" by (cases ab)
  show ?case using Cons.IH by (cases x) (simp_all add: ab split: prod.splits)
qed

lemma vt_update_unconditional:
  assumes "r \<in> set (verificationTokens d)"
  shows "\<exists>d'. vt_update_usedAt d (vt_id r) now = Inr d'
           \<and> (\<forall>r' \<in> set (verificationTokens d'). vt_id r' = vt_id r \<longrightarrow> vt_usedAt r' = Some now)
           \<and> (\<exists>r' \<in> set (verificationTokens d'). vt_id r' = vt_id r)
           \<and> users d' = users d"
proof -
  define mark where
    "mark = (\<lambda>x::verification_token. if vt_id x = vt_id r then x\<lparr>vt_usedAt := Some now\<rparr> else x)"
  define d' where "d' = d\<lparr>verificationTokens := map mark (verificationTokens d)\<rparr>"
  have "vt_update_usedAt d (vt_id r) now = Inr d'"
    using assms unfolding vt_update_usedAt_def d'_def mark_def by auto
  moreover have "\<forall>r' \<in> set (verificationTokens d'). vt_id r' = vt_id r \<longrightarrow> vt_usedAt r' = Some now"
    unfolding d'_def mark_def by (auto split: if_splits)
  moreover have "mark r \<in> set (verificationTokens d')" using assms by (simp add: d'_def)
  moreover have "vt_id (mark r) = vt_id r" by (simp add: mark_def)
  moreover have "users d' = users d" by (simp add: d'_def)
  ultimately show ?thesis by blast
qed

lemma pr_update_unconditional:
  assumes "r \<in> set (passwordResetTokens d)"
  shows "\<exists>d'. pr_update_usedAt d (pr_id r) now = Inr d'
           \<and> (\<forall>r' \<in> set (passwordResetTokens d'). pr_id r' = pr_id r \<longrightarrow> pr_usedAt r' = Some now)
           \<and> (\<exists>r' \<in> set (passwordResetTokens d'). pr_id r' = pr_id r)
           \<and> users d' = users d"
proof -
  define mark where
    "mark = (\<lambda>x::password_reset_token. if pr_id x = pr_id r then x\<lparr>pr_usedAt := Some now\<rparr> else x)"
  define d' where "d' = d\<lparr>passwordResetTokens := map mark (passwordResetTokens d)\<rparr>"
  have "pr_update_usedAt d (pr_id r) now = Inr d'"
    using assms unfolding pr_update_usedAt_def d'_def mark_def by auto
  moreover have "\<forall>r' \<in> set (passwordResetTokens d'). pr_id r' = pr_id r \<longrightarrow> pr_usedAt r' = Some now"
    unfolding d'_def mark_def by (auto split: if_splits)
  moreover have "mark r \<in> set (passwordResetTokens d')" using assms by (simp add: d'_def)
  moreover have "pr_id (mark r) = pr_id r" by (simp add: mark_def)
  moreover have "users d' = users d" by (simp add: d'_def)
  ultimately show ?thesis by blast
qed

lemma vt_both_succeed:
  assumes f: "vt_findFirst d now tok = Some r"
  shows "\<exists>d'. vt_run d now tok (Start, Start) [False, True, False, True] =
           ((Returned (Inr (findUser d (vt_userId r))),
             Returned (Inr (findUser d (vt_userId r)))), d')"
proof -
  from f have mem: "r \<in> set (verificationTokens d)"
    unfolding vt_findFirst_def by (auto simp: find_Some_iff)
  from vt_update_unconditional [OF mem, of now] obtain d1 where
    u1: "vt_update_usedAt d (vt_id r) now = Inr d1"
    and ex: "\<exists>r' \<in> set (verificationTokens d1). vt_id r' = vt_id r" by blast
  from ex obtain r' where r': "r' \<in> set (verificationTokens d1)" and id: "vt_id r' = vt_id r"
    by blast
  from vt_update_unconditional [OF r', of now] id obtain d2 where
    u2: "vt_update_usedAt d1 (vt_id r) now = Inr d2" by auto
  show ?thesis by (simp add: vt_step_def f u1 u2)
qed

lemma pr_both_succeed:
  assumes f: "pr_findFirst d now tok = Some r"
  shows "\<exists>d'. pr_run d now tok (Start, Start) [False, True, False, True] =
           ((Returned (Inr (findUser d (pr_userId r))),
             Returned (Inr (findUser d (pr_userId r)))), d')"
proof -
  from f have mem: "r \<in> set (passwordResetTokens d)"
    unfolding pr_findFirst_def by (auto simp: find_Some_iff)
  from pr_update_unconditional [OF mem, of now] obtain d1 where
    u1: "pr_update_usedAt d (pr_id r) now = Inr d1"
    and ex: "\<exists>r' \<in> set (passwordResetTokens d1). pr_id r' = pr_id r" by blast
  from ex obtain r' where r': "r' \<in> set (passwordResetTokens d1)" and id: "pr_id r' = pr_id r"
    by blast
  from pr_update_unconditional [OF r', of now] id obtain d2 where
    u2: "pr_update_usedAt d1 (pr_id r) now = Inr d2" by auto
  show ?thesis by (simp add: pr_step_def f u1 u2)
qed

text \<open>
  C9 (as the code has it).  Consumption is two statements, and the \<open>update\<close> names
  the row id only: it stamps \<open>usedAt\<close> whatever the row's \<open>usedAt\<close> is at that moment.
  Two attempts run one after the other are two calls of the \<open>verify\<close> function.  When
  both attempts run their \<open>findFirst\<close> before either \<open>update\<close>, both return the
  user that the first lookup joined: nothing makes the second \<open>update\<close> fail.
\<close>

theorem consume_two_statements:
  "(vt_findFirst d now tok = Some r \<longrightarrow>
      (\<exists>d'. vt_run d now tok (Start, Start) [False, True, False, True] =
         ((Returned (Inr (findUser d (vt_userId r))),
           Returned (Inr (findUser d (vt_userId r)))), d')))
   \<and> (pr_findFirst d now tok = Some p \<longrightarrow>
      (\<exists>d'. pr_run d now tok (Start, Start) [False, True, False, True] =
         ((Returned (Inr (findUser d (pr_userId p))),
           Returned (Inr (findUser d (pr_userId p)))), d')))
   \<and> (\<forall>x \<in> set (verificationTokens d).
         \<exists>d'. vt_update_usedAt d (vt_id x) now = Inr d'
           \<and> (\<forall>r' \<in> set (verificationTokens d'). vt_id r' = vt_id x \<longrightarrow> vt_usedAt r' = Some now))
   \<and> (\<forall>x \<in> set (passwordResetTokens d).
         \<exists>d'. pr_update_usedAt d (pr_id x) now = Inr d'
           \<and> (\<forall>r' \<in> set (passwordResetTokens d'). pr_id r' = pr_id x \<longrightarrow> pr_usedAt r' = Some now))
   \<and> vt_run d now tok (Start, Start) [False, False, True, True] =
       ((Returned (fst (verifyEmailVerificationToken d now tok)),
         Returned (fst (verifyEmailVerificationToken
                          (snd (verifyEmailVerificationToken d now tok)) now tok))),
        snd (verifyEmailVerificationToken (snd (verifyEmailVerificationToken d now tok)) now tok))
   \<and> pr_run d now tok (Start, Start) [False, False, True, True] =
       ((Returned (fst (verifyPasswordResetToken d now tok)),
         Returned (fst (verifyPasswordResetToken
                          (snd (verifyPasswordResetToken d now tok)) now tok))),
        snd (verifyPasswordResetToken (snd (verifyPasswordResetToken d now tok)) now tok))"
proof (intro conjI)
  show "vt_findFirst d now tok = Some r \<longrightarrow>
      (\<exists>d'. vt_run d now tok (Start, Start) [False, True, False, True] =
         ((Returned (Inr (findUser d (vt_userId r))),
           Returned (Inr (findUser d (vt_userId r)))), d'))"
    using vt_both_succeed by blast
  show "pr_findFirst d now tok = Some p \<longrightarrow>
      (\<exists>d'. pr_run d now tok (Start, Start) [False, True, False, True] =
         ((Returned (Inr (findUser d (pr_userId p))),
           Returned (Inr (findUser d (pr_userId p)))), d'))"
    using pr_both_succeed by blast
  show "\<forall>x \<in> set (verificationTokens d).
         \<exists>d'. vt_update_usedAt d (vt_id x) now = Inr d'
           \<and> (\<forall>r' \<in> set (verificationTokens d'). vt_id r' = vt_id x \<longrightarrow> vt_usedAt r' = Some now)"
    using vt_update_unconditional [of _ d now] by blast
  show "\<forall>x \<in> set (passwordResetTokens d).
         \<exists>d'. pr_update_usedAt d (pr_id x) now = Inr d'
           \<and> (\<forall>r' \<in> set (passwordResetTokens d'). pr_id r' = pr_id x \<longrightarrow> pr_usedAt r' = Some now)"
    using pr_update_unconditional [of _ d now] by blast
  have "vt_run d now tok (Start, Start) ([False, False] @ [True, True]) =
       ((Returned (fst (verifyEmailVerificationToken d now tok)),
         Returned (fst (verifyEmailVerificationToken
                          (snd (verifyEmailVerificationToken d now tok)) now tok))),
        snd (verifyEmailVerificationToken (snd (verifyEmailVerificationToken d now tok)) now tok))"
    by (subst vt_run_append) (simp add: vt_run_attempt del: vt_run.simps)
  then show "vt_run d now tok (Start, Start) [False, False, True, True] =
       ((Returned (fst (verifyEmailVerificationToken d now tok)),
         Returned (fst (verifyEmailVerificationToken
                          (snd (verifyEmailVerificationToken d now tok)) now tok))),
        snd (verifyEmailVerificationToken (snd (verifyEmailVerificationToken d now tok)) now tok))"
    by simp
  have "pr_run d now tok (Start, Start) ([False, False] @ [True, True]) =
       ((Returned (fst (verifyPasswordResetToken d now tok)),
         Returned (fst (verifyPasswordResetToken
                          (snd (verifyPasswordResetToken d now tok)) now tok))),
        snd (verifyPasswordResetToken (snd (verifyPasswordResetToken d now tok)) now tok))"
    by (subst pr_run_append) (simp add: pr_run_attempt del: pr_run.simps)
  then show "pr_run d now tok (Start, Start) [False, False, True, True] =
       ((Returned (fst (verifyPasswordResetToken d now tok)),
         Returned (fst (verifyPasswordResetToken
                          (snd (verifyPasswordResetToken d now tok)) now tok))),
        snd (verifyPasswordResetToken (snd (verifyPasswordResetToken d now tok)) now tok))"
    by simp
qed

theorem consume_two_statements_witness:
  "fst (pr_run db1 9 ''bb22'' (Start, Start) [False, True, False, True]) =
     (Returned (Inr (Some bob)), Returned (Inr (Some bob)))
   \<and> fst (vt_run db1 9 ''aa11'' (Start, Start) [False, False, True, True]) =
     (Returned (Inr (Some alice)), Returned (Inr None))"
proof -
  define row where "row = \<lparr>pr_id = 1, pr_userId = ''clx0b2'', pr_token = ''bb22'',
                           pr_expiresAt = 3600000, pr_usedAt = None\<rparr>"
  have f: "pr_findFirst db1 9 ''bb22'' = Some row"
    by (simp add: pr_findFirst_def db1_def db0_def row_def)
  have u: "findUser db1 (pr_userId row) = Some bob"
    by (simp add: findUser_def db1_def db0_def row_def alice_def bob_def)
  from consume_two_statements [of db1 9 "''bb22''" _ row, THEN conjunct2, THEN conjunct1] f u
  have a: "fst (pr_run db1 9 ''bb22'' (Start, Start) [False, True, False, True]) =
             (Returned (Inr (Some bob)), Returned (Inr (Some bob)))"
    by (auto simp del: pr_run.simps)
  have b: "fst (vt_run db1 9 ''aa11'' (Start, Start) [False, False, True, True]) =
             (Returned (Inr (Some alice)), Returned (Inr None))"
    unfolding consume_two_statements [of db1 9 "''aa11''", THEN conjunct2, THEN conjunct2,
                THEN conjunct2, THEN conjunct2, THEN conjunct1]
    by (simp add: verifyEmailVerificationToken_def vt_findFirst_def vt_update_usedAt_def
                  db1_def db0_def findUser_def alice_def bob_def)
  from a b show ?thesis by simp
qed

text \<open>
  Two attempts on the live token \<open>aa11\<close> of the example store, interleaved
  find, find, update, update: both return the user.
\<close>

theorem consume_atomic_counterexample:
  "fst (vt_run db1 5 ''aa11'' (Start, Start) [False, True, False, True]) =
     (Returned (Inr (Some alice)), Returned (Inr (Some alice)))"
  by (simp add: vt_step_def vt_findFirst_def vt_update_usedAt_def db1_def db0_def
                findUser_def alice_def bob_def)

section \<open>Properties of the cache layer\<close>

lemma errorHandler_not_200: "errorHandler e \<noteq> 200"
  by (cases e) simp_all

lemma try_catch_total: "\<exists>v. fst (try_catch r d) = Inr v"
  by (cases "fst r") (simp_all add: try_catch_def)

lemma try_catch_Inl: "fst r = Inl e \<Longrightarrow> try_catch r d = (Inr d, snd r)"
  by (simp add: try_catch_def)

lemma failing_tick:
  "\<not> r_up c \<Longrightarrow> \<not> r_up (tick c)" "\<not> r_up c \<Longrightarrow> failing c" "\<not> r_up c \<Longrightarrow> failing (tick c)"
  by (simp_all add: tick_def failing_def)

lemma cache_ops_failing:
  assumes "failing c"
  shows "cache_set c now key v ttl = (Inr None, tick c)"
    and "cache_get c now key = (Inr None, tick c)"
    and "cache_delete c now key = (Inr 0, tick c)"
    and "deleteByPattern c now pat = (Inr 0, tick c)"
    and "cache_exists c now key = (Inr False, tick c)"
    and "increment c now key = (Inr 0, tick c)"
  using assms
  by (simp_all add: cache_set_def cache_get_def cache_delete_def deleteByPattern_def
        cache_exists_def increment_def try_catch_def setEx_def get_def del_def keys_def
        exists_key_def incr_def)

lemma findById_cache_down:
  assumes "\<not> r_up (w_cache w)"
  shows "fst (findById w now ident) =
           Inr (map_option (\<lambda>u. VUser (select_user u)) (findUser (w_db w) ident))"
    and "w_db (snd (findById w now ident)) = w_db w"
  using assms failing_tick [of "w_cache w"]
  by (simp_all add: findById_def getCachedUser_def cacheUser_def cache_ops_failing Let_def
               split: option.splits)

lemma authenticate_cache_down:
  assumes "\<not> r_up (w_cache w)" and "startsWith h ''Bearer ''" and "drop 7 h \<noteq> []"
  shows "fst (authenticate J E w now (Some h)) = Inl RedisError"
  using assms failing_tick [of "w_cache w"]
  by (simp add: authenticate_def get_def auth_catch_def Let_def)

lemma cache_ops_total:
  "\<exists>x. fst (cache_set c now key v ttl) = Inr x"
  "\<exists>x. fst (cache_get c now key) = Inr x"
  "\<exists>x. fst (cache_delete c now key) = Inr x"
  "\<exists>x. fst (deleteByPattern c now pat) = Inr x"
  "\<exists>x. fst (cache_exists c now key) = Inr x"
  "\<exists>x. fst (increment c now key) = Inr x"
  unfolding cache_set_def cache_get_def cache_delete_def deleteByPattern_def
            cache_exists_def increment_def
  by (rule try_catch_total)+

text \<open>
  C5 (as the code has it).  The six operations of \<open>CacheService\<close> never raise, whatever
  the state of the cache store, and when the store fails they return \<open>null\<close>, \<open>0\<close>
  or \<open>false\<close>; a cache-aside read through them (\<open>findById\<close>) returns the row of the
  relational store when the cache is down.  The blacklist lookup of \<open>authenticate\<close>
  does not go through \<open>CacheService\<close>: with the cache down, a request that carries a
  bearer token ends in the error of the redis client.
\<close>

theorem cache_service_best_effort:
  "(\<exists>x. fst (cache_set c now key v ttl) = Inr x)
   \<and> (\<exists>x. fst (cache_get c now key) = Inr x)
   \<and> (\<exists>x. fst (cache_delete c now key) = Inr x)
   \<and> (\<exists>x. fst (deleteByPattern c now pat) = Inr x)
   \<and> (\<exists>x. fst (cache_exists c now key) = Inr x)
   \<and> (\<exists>x. fst (increment c now key) = Inr x)
   \<and> (failing c \<longrightarrow>
         cache_set c now key v ttl = (Inr None, tick c)
         \<and> cache_get c now key = (Inr None, tick c)
         \<and> cache_delete c now key = (Inr 0, tick c)
         \<and> deleteByPattern c now pat = (Inr 0, tick c)
         \<and> cache_exists c now key = (Inr False, tick c)
         \<and> increment c now key = (Inr 0, tick c))
   \<and> (\<not> r_up (w_cache w) \<longrightarrow>
         fst (findById w now ident) =
           Inr (map_option (\<lambda>u. VUser (select_user u)) (findUser (w_db w) ident)))
   \<and> (\<not> r_up (w_cache w) \<and> startsWith h ''Bearer '' \<and> drop 7 h \<noteq> [] \<longrightarrow>
         fst (authenticate J E w now (Some h)) = Inl RedisError)"
proof (intro conjI impI)
  assume "\<not> r_up (w_cache w) \<and> startsWith h ''Bearer '' \<and> drop 7 h \<noteq> []"
  then show "fst (authenticate J E w now (Some h)) = Inl RedisError"
    using authenticate_cache_down by blast
qed (simp_all add: cache_ops_total cache_ops_failing findById_cache_down)

theorem cache_service_best_effort_witness:
  "cache_get (w_cache world_down) 0 ''user:NaN'' = (Inr None, tick (w_cache world_down))
   \<and> increment (w_cache world_down) 0 ''rate_limit:1.2.3.4'' = (Inr 0, tick (w_cache world_down))
   \<and> fst (findById world_down 0 ''clx0a1'') = Inr (Some (VUser (select_user alice)))
   \<and> fst (authenticate toy_jwt toy_env world_down 0 (Some ''Bearer acc.alice'')) = Inl RedisError"
proof -
  have f: "failing (w_cache world_down)" and d: "\<not> r_up (w_cache world_down)"
    by (simp_all add: world_down_def failing_def)
  have b: "startsWith ''Bearer acc.alice'' ''Bearer ''" "drop 7 ''Bearer acc.alice'' \<noteq> []"
    by (simp_all add: startsWith_def)
  have u: "findUser (w_db world_down) ''clx0a1'' = Some alice"
    by (simp add: world_down_def db1_def db0_def findUser_def alice_def)
  from cache_service_best_effort [of "w_cache world_down" 0 "''user:NaN''" VTrue 1 "''x''"
         world_down "''clx0a1''" "''Bearer acc.alice''" toy_jwt toy_env] f d b u
  have 1: "cache_get (w_cache world_down) 0 ''user:NaN'' = (Inr None, tick (w_cache world_down))"
    and 2: "fst (findById world_down 0 ''clx0a1'') = Inr (Some (VUser (select_user alice)))"
    and 3: "fst (authenticate toy_jwt toy_env world_down 0 (Some ''Bearer acc.alice''))
              = Inl RedisError"
    by simp_all
  from cache_service_best_effort [of "w_cache world_down" 0 "''rate_limit:1.2.3.4''" VTrue 1 "''x''"
         world_down "''clx0a1''" "''Bearer acc.alice''" toy_jwt toy_env] f
  have 4: "increment (w_cache world_down) 0 ''rate_limit:1.2.3.4''
             = (Inr 0, tick (w_cache world_down))"
    by simp
  from 1 2 3 4 show ?thesis by simp
qed

text \<open>
  The same request, with the same valid access token: authenticated when the cache
  answers, answered with status 500 when the cache is down.
\<close>

theorem authenticate_cache_down_counterexample:
  "fst (authenticate toy_jwt toy_env world0 0 (Some ''Bearer acc.alice''))
     = Inr (VUser (select_user alice), ''acc.alice'')
   \<and> fst (authenticate toy_jwt toy_env world_down 0 (Some ''Bearer acc.alice''))
     = Inl RedisError
   \<and> errorHandler RedisError = 500"
proof -
  have p: "parseInt ''clx0a1'' = None"
    by (simp add: parseInt_def js_white_def is_dec_def is_hex_def Let_def)
  have a: "fst (authenticate toy_jwt toy_env world0 0 (Some ''Bearer acc.alice''))
             = Inr (VUser (select_user alice), ''acc.alice'')"
    by (simp add: authenticate_def startsWith_def get_def failing_def tick_def lookup_def
          world0_def toy_jwt_def toy_table_def toy_env_def findById_def p getCachedUser_def
          cacheUser_def cache_get_def cache_set_def try_catch_def setEx_def put_def
          generateKey_def js_toString_def db1_def db0_def findUser_def alice_def bob_def
          select_user_def)
  have b: "fst (authenticate toy_jwt toy_env world_down 0 (Some ''Bearer acc.alice''))
             = Inl RedisError"
    by (simp add: authenticate_def startsWith_def get_def failing_def world_down_def
          auth_catch_def)
  from a b show ?thesis by simp
qed

section \<open>Properties of findById\<close>

lemma parseInt_examples:
  "parseInt ''clx0a1'' = None" "parseInt ''clx0b2'' = None"
  by (simp_all add: parseInt_def js_white_def is_dec_def is_hex_def Let_def)

lemma tick_id: "r_faults c = [] \<Longrightarrow> tick c = c"
  by (simp add: tick_def)

lemma put_fields: "r_faults (put c k v ex) = r_faults c" "r_up (put c k v ex) = r_up c"
  by (simp_all add: put_def)

text \<open>
  Two ids with the same \<open>parseInt\<close> share a cache entry: once the first is read
  through a working cache that had no entry, a read of the second within ten minutes
  returns the first user's record.
\<close>

lemma findById_collision:
  assumes same: "parseInt a = parseInt b"
    and up: "r_up (w_cache w)" "r_faults (w_cache w) = []"
    and miss: "lookup (w_cache w) now (generateKey ''user'' (js_toString (parseInt a))) = None"
    and row: "findUser (w_db w) a = Some ua"
    and soon: "now' < now + 600"
  shows "fst (findById (snd (findById w now a)) now' b) = Inr (Some (VUser (select_user ua)))"
proof -
  define k where "k = generateKey ''user'' (js_toString (parseInt a))"
  define c1 where "c1 = put (w_cache w) k (VUser (select_user ua)) (Some (now + 600))"
  have nf: "\<not> failing (w_cache w)"
    using up by (simp add: failing_def)
  have first: "findById w now a = (Inr (Some (VUser (select_user ua))), w\<lparr>w_cache := c1\<rparr>)"
    using miss row nf up unfolding k_def [symmetric]
    by (simp add: findById_def getCachedUser_def cacheUser_def cache_get_def cache_set_def
          try_catch_def get_def setEx_def k_def [symmetric] c1_def tick_id put_fields)
  have nf1: "\<not> failing c1" "tick c1 = c1"
    using up by (simp_all add: failing_def c1_def tick_id put_fields)
  have hit: "lookup c1 now' k = Some (VUser (select_user ua))"
    using soon by (simp add: lookup_def c1_def put_def visible_def)
  show ?thesis
    unfolding first using hit nf1
    by (simp add: findById_def getCachedUser_def cache_get_def try_catch_def get_def
          same [symmetric] Let_def k_def [symmetric])
qed

text \<open>
  C1 at two users of the example store, whose ids \<open>clx0a1\<close> and \<open>clx0b2\<close> both
  parse to \<open>NaN\<close>: the first read caches the first user under \<open>user:NaN\<close>, and the
  read of the second id returns the first user's record, although the relational
  store holds the second user under that id.
\<close>

theorem findById_returns_other_user:
  "fst (findById world0 0 ''clx0a1'') = Inr (Some (VUser (select_user alice)))
   \<and> fst (findById (snd (findById world0 0 ''clx0a1'')) 1 ''clx0b2'')
       = Inr (Some (VUser (select_user alice)))
   \<and> v_id (select_user alice) = ''clx0a1''
   \<and> findUser (w_db world0) ''clx0b2'' = Some bob
   \<and> generateKey ''user'' (js_toString (parseInt ''clx0a1'')) = ''user:NaN''
   \<and> generateKey ''user'' (js_toString (parseInt ''clx0b2'')) = ''user:NaN''"
  by (simp add: findById_def parseInt_examples getCachedUser_def cacheUser_def cache_get_def
        cache_set_def try_catch_def get_def setEx_def failing_def tick_def put_def lookup_def
        generateKey_def js_toString_def world0_def db1_def db0_def findUser_def alice_def
        bob_def visible_def select_user_def)

section \<open>Properties of the auth routes\<close>

lemma resolve_redis:
  "resolve auth_routes_scope ''redis'' = Inl (ReferenceError ''redis is not defined'')"
  by (simp add: resolve_def auth_routes_scope_def)

lemma refresh_handler_cases:
  "refresh_handler J E w now t =
     (case verifyRefreshToken J E now t of
        Inl e \<Rightarrow> (Inl e, w)
      | Inr d \<Rightarrow> (Inl (ReferenceError ''redis is not defined''), w))"
  by (simp add: refresh_handler_def resolve_redis split: sum.splits)

lemma refresh_route_fails: "\<exists>e. refresh_route J E w now body = (Inl e, w)"
proof (cases body)
  case None
  then show ?thesis by (simp add: refresh_route_def)
next
  case (Some t)
  then show ?thesis
    by (cases "verifyRefreshToken J E now t")
       (simp_all add: refresh_route_def refresh_handler_cases)
qed

lemma try_catch_unit: "fst (try_catch r ()) = Inr ()"
  by (cases "fst r") (simp_all add: try_catch_def)

lemma blacklistToken_never_throws: "fst (blacklistToken J c now t) = Inr ()"
  unfolding blacklistToken_def by (rule try_catch_unit)

lemma blacklistToken_pair:
  "blacklistToken J c now t = (Inr (), snd (blacklistToken J c now t))"
  using blacklistToken_never_throws [of J c now t] by (simp add: prod_eq_iff)

lemma r_kv_tick: "r_kv (tick c) = r_kv c"
  by (simp add: tick_def)

lemma setEx_failing: "failing c \<Longrightarrow> setEx c now k s v = (Inl RedisError, tick c)"
  by (simp add: setEx_def)

lemma blacklistToken_noop:
  assumes "(\<exists>e. jwt_decode J t = Inl e) \<or> jwt_decode J t = Inr None
           \<or> (\<exists>p. jwt_decode J t = Inr (Some p)
                 \<and> (case p_exp p of None \<Rightarrow> True | Some ex \<Rightarrow> ex \<le> now))
           \<or> failing c"
  shows "r_kv (snd (blacklistToken J c now t)) = r_kv c"
proof (cases "jwt_decode J t")
  case (Inl e)
  then show ?thesis by (simp add: blacklistToken_def try_catch_def)
next
  case (Inr po)
  show ?thesis
  proof (cases po)
    case None
    with Inr show ?thesis by (simp add: blacklistToken_def try_catch_def)
  next
    case (Some p)
    show ?thesis
    proof (cases "p_exp p")
      case None
      with Inr Some show ?thesis by (simp add: blacklistToken_def try_catch_def)
    next
      case (Some ex)
      show ?thesis
      proof (cases "ex = 0 \<or> ex - now \<le> 0")
        case True
        with Inr \<open>po = Some p\<close> Some show ?thesis
          by (auto simp: blacklistToken_def try_catch_def Let_def)
      next
        case False
        with assms Inr \<open>po = Some p\<close> Some have "failing c" by auto
        with False Inr \<open>po = Some p\<close> Some show ?thesis
          by (simp add: blacklistToken_def try_catch_def Let_def setEx_failing r_kv_tick)
      qed
    qed
  qed
qed

lemma logout_handler_succeeds:
  "fst (logout_handler J w now h rt) = Inr (Message ''Logout successful'')"
proof -
  define a where "a = (case h of None \<Rightarrow> [] | Some x \<Rightarrow> replace_first ''Bearer '' x)"
  obtain c1 where s1: "(if a \<noteq> [] then blacklistToken J (w_cache w) now a
                        else (Inr (), w_cache w)) = (Inr (), c1)"
    using blacklistToken_pair [of J "w_cache w" now a] by (cases "a \<noteq> []") simp_all
  obtain c2 where s2: "(if rt \<noteq> [] then blacklistToken J c1 now rt else (Inr (), c1))
                         = (Inr (), c2)"
    using blacklistToken_pair [of J c1 now rt] by (cases "rt \<noteq> []") simp_all
  show ?thesis
    unfolding logout_handler_def Let_def a_def [symmetric] s1 by (simp add: s2)
qed

lemma logout_succeeds:
  assumes "authenticate J E w now h = (Inr ut, w1)" and "body = Some rt" and "rt \<noteq> []"
  shows "fst (logout_route J E w now h body) = Inr (Message ''Logout successful'')"
  using assms by (simp add: logout_route_def logout_handler_succeeds)

text \<open>
  C2 on the code.  The handler of \<open>POST /auth/refresh\<close> reads the identifier
  \<open>redis\<close>, which its module does not bind: for a refresh token that verifies, the
  request ends in a \<open>ReferenceError\<close> (status 500).  No request to the route is
  answered with 200, and none changes the cache or the store (nothing is
  blacklisted); a second request with the same token ends as the first.
\<close>

theorem refresh_never_succeeds:
  "(\<exists>e. fst (refresh_route J E w now body) = Inl e)
   \<and> snd (refresh_route J E w now body) = w
   \<and> http_status (fst (refresh_route J E w now body)) \<noteq> 200
   \<and> (\<forall>t d. body = Some t \<and> t \<noteq> [] \<and> verifyRefreshToken J E now t = Inr d \<longrightarrow>
         fst (refresh_route J E w now body) = Inl (ReferenceError ''redis is not defined'')
         \<and> http_status (fst (refresh_route J E w now body)) = 500)"
proof -
  from refresh_route_fails obtain e where e: "refresh_route J E w now body = (Inl e, w)"
    by blast
  have b: "\<forall>t d. body = Some t \<and> t \<noteq> [] \<and> verifyRefreshToken J E now t = Inr d \<longrightarrow>
         fst (refresh_route J E w now body) = Inl (ReferenceError ''redis is not defined'')
         \<and> http_status (fst (refresh_route J E w now body)) = 500"
    by (simp add: refresh_route_def refresh_handler_cases http_status_def)
  from e b show ?thesis by (simp add: http_status_def errorHandler_not_200)
qed

theorem refresh_never_succeeds_witness:
  "verifyRefreshToken toy_jwt toy_env 0 ''ref.alice''
     = Inr \<lparr>p_userId = ''clx0a1'', p_type = ''refresh'', p_exp = Some 604800\<rparr>
   \<and> refresh_route toy_jwt toy_env world0 0 (Some ''ref.alice'')
       = (Inl (ReferenceError ''redis is not defined''), world0)
   \<and> http_status (fst (refresh_route toy_jwt toy_env world0 0 (Some ''ref.alice''))) = 500
   \<and> http_status (fst (refresh_route toy_jwt toy_env
         (snd (refresh_route toy_jwt toy_env world0 0 (Some ''ref.alice''))) 1
         (Some ''ref.alice''))) = 500"
proof -
  have v: "verifyRefreshToken toy_jwt toy_env t ''ref.alice''
             = Inr \<lparr>p_userId = ''clx0a1'', p_type = ''refresh'', p_exp = Some 604800\<rparr>"
    if "t < 604800" for t
    using that by (simp add: verifyRefreshToken_def toy_jwt_def toy_table_def toy_env_def)
  note th = refresh_never_succeeds [of toy_jwt toy_env world0 0 "Some ''ref.alice''"]
  from th v [of 0] have 1:
    "fst (refresh_route toy_jwt toy_env world0 0 (Some ''ref.alice''))
       = Inl (ReferenceError ''redis is not defined'')"
    "http_status (fst (refresh_route toy_jwt toy_env world0 0 (Some ''ref.alice''))) = 500"
    by (simp_all add: http_status_def)
  from th have 2: "snd (refresh_route toy_jwt toy_env world0 0 (Some ''ref.alice'')) = world0"
    by simp
  from refresh_never_succeeds [of toy_jwt toy_env world0 1 "Some ''ref.alice''"] v [of 1]
  have 3: "http_status (fst (refresh_route toy_jwt toy_env world0 1 (Some ''ref.alice''))) = 500"
    by (simp add: http_status_def)
  have 4: "refresh_route toy_jwt toy_env world0 0 (Some ''ref.alice'')
       = (Inl (ReferenceError ''redis is not defined''), world0)"
    using 1(1) 2 by (simp add: prod_eq_iff)
  from 1 2 3 4 v [of 0] show ?thesis by simp
qed

text \<open>
  \<open>blacklistToken\<close> never raises, whatever the token, the library's \<open>decode\<close> and
  the state of the cache; it writes nothing when \<open>decode\<close> raises or returns
  \<open>null\<close>, when \<open>exp\<close> is absent or not in the future, and when the cache call
  fails.  So a logout request that passed \<open>authenticate\<close> and carries a refresh token
  in its body is answered "Logout successful", whether or not an entry was written.
\<close>

lemma blacklistToken_swallows_failures:
  "fst (blacklistToken J c now t) = Inr ()
   \<and> ((\<exists>e. jwt_decode J t = Inl e) \<or> jwt_decode J t = Inr None
        \<or> (\<exists>p. jwt_decode J t = Inr (Some p)
              \<and> (case p_exp p of None \<Rightarrow> True | Some ex \<Rightarrow> ex \<le> now))
        \<or> failing c
       \<longrightarrow> r_kv (snd (blacklistToken J c now t)) = r_kv c)
   \<and> (\<forall>ut w1 rt. authenticate J E w now h = (Inr ut, w1) \<and> body = Some rt \<and> rt \<noteq> []
         \<longrightarrow> fst (logout_route J E w now h body) = Inr (Message ''Logout successful''))"
  using blacklistToken_never_throws [of J c now t] blacklistToken_noop [of J t now c]
        logout_succeeds [of J E w now h _ _ body]
  by blast

lemma logout_flaky:
  "authenticate toy_jwt toy_env world_flaky 0 (Some ''Bearer acc.alice'')
     = (Inr (VUser (select_user alice), ''acc.alice''),
        \<lparr>w_cache = \<lparr>r_up = True, r_faults = [True, True],
                    r_kv = [(''user:NaN'', VUser (select_user alice), Some 600)]\<rparr>,
         w_db = db1\<rparr>)"
  by (simp add: authenticate_def startsWith_def get_def failing_def tick_def lookup_def
        world_flaky_def toy_jwt_def toy_table_def toy_env_def findById_def parseInt_examples
        getCachedUser_def cacheUser_def cache_get_def cache_set_def try_catch_def setEx_def
        put_def generateKey_def js_toString_def db1_def db0_def findUser_def alice_def bob_def
        select_user_def)

lemma toy_decode:
  "jwt_decode toy_jwt ''acc.alice''
     = Inr (Some \<lparr>p_userId = ''clx0a1'', p_type = ''access'', p_exp = Some 900\<rparr>)"
  "jwt_decode toy_jwt ''ref.alice''
     = Inr (Some \<lparr>p_userId = ''clx0a1'', p_type = ''refresh'', p_exp = Some 604800\<rparr>)"
  "jwt_decode toy_jwt ''garbage'' = Inr None"
  by (simp_all add: toy_jwt_def toy_table_def)

lemma toy_verify:
  "now < 900 \<Longrightarrow> jwt_verify toy_jwt ''acc.alice'' ''s1'' now
     = Inr \<lparr>p_userId = ''clx0a1'', p_type = ''access'', p_exp = Some 900\<rparr>"
  "now < 900 \<Longrightarrow> jwt_verify toy_jwt ''acc.bob'' ''s1'' now
     = Inr \<lparr>p_userId = ''clx0b2'', p_type = ''access'', p_exp = Some 900\<rparr>"
  by (simp_all add: toy_jwt_def toy_table_def)

lemma logout_flaky_world:
  "snd (logout_route toy_jwt toy_env world_flaky 0 (Some ''Bearer acc.alice'')
          (Some ''ref.alice''))
     = \<lparr>w_cache = \<lparr>r_up = True, r_faults = [],
                    r_kv = [(''user:NaN'', VUser (select_user alice), Some 600)]\<rparr>,
        w_db = db1\<rparr>"
  by (simp add: logout_route_def logout_flaky logout_handler_def blacklistToken_def
        try_catch_def toy_decode setEx_def failing_def tick_def Let_def)

text \<open>
  In the example world whose cache fails the two blacklist writes: logout succeeds,
  no entry is written, and the access token still authenticates afterwards.
\<close>

lemma logout_without_blacklist_entry:
  "fst (logout_route toy_jwt toy_env world_flaky 0 (Some ''Bearer acc.alice'')
          (Some ''ref.alice'')) = Inr (Message ''Logout successful'')
   \<and> lookup (w_cache (snd (logout_route toy_jwt toy_env world_flaky 0
         (Some ''Bearer acc.alice'') (Some ''ref.alice'')))) 1 ''blacklist:acc.alice'' = None
   \<and> fst (authenticate toy_jwt toy_env
         (snd (logout_route toy_jwt toy_env world_flaky 0 (Some ''Bearer acc.alice'')
                 (Some ''ref.alice''))) 1 (Some ''Bearer acc.alice''))
       = Inr (VUser (select_user alice), ''acc.alice'')
   \<and> blacklistToken toy_jwt (w_cache world0) 0 ''garbage'' = (Inr (), w_cache world0)
   \<and> r_kv (snd (blacklistToken toy_jwt (w_cache world0) 900 ''acc.alice'')) = []
   \<and> r_kv (snd (blacklistToken toy_jwt (w_cache world_down) 0 ''acc.alice'')) = []"
proof -
  note th = blacklistToken_swallows_failures
  from th [where J = toy_jwt and E = toy_env and w = world_flaky and now = 0
              and h = "Some ''Bearer acc.alice''" and body = "Some ''ref.alice''"]
       logout_flaky
  have 1: "fst (logout_route toy_jwt toy_env world_flaky 0 (Some ''Bearer acc.alice'')
                  (Some ''ref.alice'')) = Inr (Message ''Logout successful'')"
    by simp
  have 2: "lookup (w_cache (snd (logout_route toy_jwt toy_env world_flaky 0
             (Some ''Bearer acc.alice'') (Some ''ref.alice'')))) 1 ''blacklist:acc.alice'' = None"
    by (simp add: logout_flaky_world lookup_def)
  have 3: "fst (authenticate toy_jwt toy_env
             (snd (logout_route toy_jwt toy_env world_flaky 0 (Some ''Bearer acc.alice'')
                     (Some ''ref.alice''))) 1 (Some ''Bearer acc.alice''))
           = Inr (VUser (select_user alice), ''acc.alice'')"
    unfolding logout_flaky_world
    by (simp add: authenticate_def startsWith_def get_def failing_def
          tick_def lookup_def toy_verify toy_env_def findById_def
          parseInt_examples getCachedUser_def cache_get_def try_catch_def generateKey_def
          js_toString_def visible_def)
  note g = toy_decode(3)
  from th [of toy_jwt "w_cache world0" 0 "''garbage''"] g
  have 4: "fst (blacklistToken toy_jwt (w_cache world0) 0 ''garbage'') = Inr ()"
    and 5: "r_kv (snd (blacklistToken toy_jwt (w_cache world0) 0 ''garbage'')) = []"
    by (simp_all add: world0_def)
  have 6: "blacklistToken toy_jwt (w_cache world0) 0 ''garbage'' = (Inr (), w_cache world0)"
    by (simp add: blacklistToken_def g try_catch_def)
  note e = toy_decode(1)
  from th [of toy_jwt "w_cache world0" 900 "''acc.alice''"] e
  have 7: "r_kv (snd (blacklistToken toy_jwt (w_cache world0) 900 ''acc.alice'')) = []"
    by (simp add: world0_def)
  have "failing (w_cache world_down)" by (simp add: world_down_def failing_def)
  with th [of toy_jwt "w_cache world_down" 0 "''acc.alice''"]
  have 8: "r_kv (snd (blacklistToken toy_jwt (w_cache world_down) 0 ''acc.alice'')) = []"
    by (simp add: world_down_def)
  from 1 2 3 6 7 8 show ?thesis by simp
qed

text \<open>
  C10 on the code.  Refresh rotation with a refresh token that verifies, in the
  example world where the blacklist write would fail: the handler raises the
  \<open>ReferenceError\<close> for \<open>redis\<close> before it reaches \<open>blacklistToken\<close>, the request is
  answered with status 500 instead of success, and the world is as it was.
\<close>

theorem refresh_rotation_reports_failure:
  "verifyRefreshToken toy_jwt toy_env 0 ''ref.alice''
     = Inr \<lparr>p_userId = ''clx0a1'', p_type = ''refresh'', p_exp = Some 604800\<rparr>
   \<and> refresh_route toy_jwt toy_env world_flaky 0 (Some ''ref.alice'')
     = (Inl (ReferenceError ''redis is not defined''), world_flaky)
   \<and> http_status (fst (refresh_route toy_jwt toy_env world_flaky 0 (Some ''ref.alice''))) = 500"
  by (simp add: refresh_route_def refresh_handler_cases verifyRefreshToken_def toy_jwt_def
        toy_table_def toy_env_def http_status_def)

subsection \<open>Password reset\<close>

lemma call_updatePassword:
  "call_method UserService_methods ''updatePassword''
     = Inl (TypeError ''updatePassword is not a function'')"
  by (simp add: call_method_def UserService_methods_def)

lemma pr_update_users:
  "pr_update_usedAt d i t = Inr d' \<Longrightarrow> users d' = users d"
  by (auto simp: pr_update_usedAt_def split: if_splits)

lemma verifyPasswordResetToken_users:
  "users (snd (verifyPasswordResetToken d t tok)) = users d"
  by (auto simp: verifyPasswordResetToken_def dest: pr_update_users
           split: option.splits sum.splits)

lemma reset_password_handler_cases:
  "reset_password_handler w ms now body =
     (case rb_token body of
        None \<Rightarrow> (Inl (ValidationError ''Invalid or expired reset token''), w)
      | Some token \<Rightarrow>
          (case fst (verifyPasswordResetToken (w_db w) ms token) of
             Inl e \<Rightarrow> (Inl e, w\<lparr>w_db := snd (verifyPasswordResetToken (w_db w) ms token)\<rparr>)
           | Inr None \<Rightarrow> (Inl (ValidationError ''Invalid or expired reset token''),
                          w\<lparr>w_db := snd (verifyPasswordResetToken (w_db w) ms token)\<rparr>)
           | Inr (Some user) \<Rightarrow>
               (Inl (TypeError ''updatePassword is not a function''),
                w\<lparr>w_db := snd (verifyPasswordResetToken (w_db w) ms token)\<rparr>)))"
  by (cases "verifyPasswordResetToken (w_db w) ms (the (rb_token body))")
     (auto simp: reset_password_handler_def call_updatePassword
           split: option.splits sum.splits)

lemma reset_password_route_general:
  "http_status (fst (reset_password_route w ms now body)) \<noteq> 200
   \<and> users (w_db (snd (reset_password_route w ms now body))) = users (w_db w)
   \<and> w_cache (snd (reset_password_route w ms now body)) = w_cache w"
  by (auto simp: reset_password_route_def reset_password_handler_cases http_status_def
                 errorHandler_not_200 verifyPasswordResetToken_users
           split: sum.splits option.splits)

text \<open>
  C3 on the code.  No request to \<open>POST /auth/reset-password\<close> is answered with 200,
  and none changes a user row (so no password hash) or the cache.  A body with the
  fields \<open>token\<close> and \<open>password\<close> fails validation, which asks for \<open>newPassword\<close>;
  a body with \<open>token\<close> and \<open>newPassword\<close> consumes the token and then ends in a
  \<open>TypeError\<close> (status 500), because \<open>UserService\<close> has no method
  \<open>updatePassword\<close>.  In the example world, the access token that the user held
  before is still accepted after the request.
\<close>

theorem reset_password_never_succeeds:
  "http_status (fst (reset_password_route w ms now body)) \<noteq> 200
   \<and> users (w_db (snd (reset_password_route w ms now body))) = users (w_db w)
   \<and> w_cache (snd (reset_password_route w ms now body)) = w_cache w
   \<and> fst (reset_password_route world0 1000 1
         \<lparr>rb_token = Some ''bb22'', rb_password = Some ''Aa123456'', rb_newPassword = None\<rparr>)
       = Inl (ValidationError ''Validation failed'')
   \<and> fst (reset_password_route world0 1000 1
         \<lparr>rb_token = Some ''bb22'', rb_password = None, rb_newPassword = Some ''Aa123456''\<rparr>)
       = Inl (TypeError ''updatePassword is not a function'')
   \<and> http_status (Inl (TypeError ''updatePassword is not a function'')) = 500
   \<and> usedAt_of (w_db (snd (reset_password_route world0 1000 1
         \<lparr>rb_token = Some ''bb22'', rb_password = None, rb_newPassword = Some ''Aa123456''\<rparr>)))
         ''bb22'' PASSWORD_RESET = [Some 1000]
   \<and> fst (authenticate toy_jwt toy_env (snd (reset_password_route world0 1000 1
         \<lparr>rb_token = Some ''bb22'', rb_password = None, rb_newPassword = Some ''Aa123456''\<rparr>))
         2 (Some ''Bearer acc.bob''))
       = Inr (VUser (select_user bob), ''acc.bob'')"
proof -
  define good where
    "good = \<lparr>rb_token = Some ''bb22'', rb_password = None, rb_newPassword = Some ''Aa123456''\<rparr>"
  have pw: "password_ok ''Aa123456''"
    by (simp add: password_ok_def is_dec_def)
  have v: "validate_resetPassword good = Inr good"
    by (simp add: validate_resetPassword_def good_def pw)
  have c: "verifyPasswordResetToken (w_db world0) 1000 ''bb22''
             = (Inr (Some bob),
                db1\<lparr>passwordResetTokens :=
                      [\<lparr>pr_id = 1, pr_userId = ''clx0b2'', pr_token = ''bb22'',
                        pr_expiresAt = 3600000, pr_usedAt = Some 1000\<rparr>]\<rparr>)"
    by (simp add: verifyPasswordResetToken_def pr_findFirst_def pr_update_usedAt_def
          world0_def db1_def db0_def findUser_def alice_def bob_def)
  have r: "reset_password_route world0 1000 1 good
             = (Inl (TypeError ''updatePassword is not a function''),
                world0\<lparr>w_db := db1\<lparr>passwordResetTokens :=
                      [\<lparr>pr_id = 1, pr_userId = ''clx0b2'', pr_token = ''bb22'',
                        pr_expiresAt = 3600000, pr_usedAt = Some 1000\<rparr>]\<rparr>\<rparr>)"
    by (simp add: reset_password_route_def v reset_password_handler_cases)
      (simp add: good_def c)
  have 1: "fst (reset_password_route world0 1000 1
         \<lparr>rb_token = Some ''bb22'', rb_password = Some ''Aa123456'', rb_newPassword = None\<rparr>)
       = Inl (ValidationError ''Validation failed'')"
    by (simp add: reset_password_route_def validate_resetPassword_def)
  have 2: "usedAt_of (w_db (snd (reset_password_route world0 1000 1 good))) ''bb22''
             PASSWORD_RESET = [Some 1000]"
    by (simp add: r usedAt_of_def)
  have p: "parseInt ''clx0b2'' = None" by (rule parseInt_examples)
  have 3: "fst (authenticate toy_jwt toy_env (snd (reset_password_route world0 1000 1 good))
             2 (Some ''Bearer acc.bob'')) = Inr (VUser (select_user bob), ''acc.bob'')"
    unfolding r
    by (simp add: authenticate_def startsWith_def get_def failing_def tick_def lookup_def
          world0_def toy_verify toy_env_def findById_def p getCachedUser_def cacheUser_def
          cache_get_def cache_set_def try_catch_def setEx_def put_def generateKey_def
          js_toString_def db1_def db0_def findUser_def alice_def bob_def select_user_def)
  from reset_password_route_general [of w ms now body] r 1 2 3 show ?thesis
    unfolding good_def by (simp add: http_status_def)
qed

lemma findByEmail_findUser:
  assumes "findByEmail d email = Some u"
  shows "\<exists>u'. findUser d (u_id u) = Some u'"
proof -
  from assms have "u \<in> set (users d)"
    by (auto simp: findByEmail_def find_Some_iff)
  then have "find (\<lambda>x. u_id x = u_id u) (users d) \<noteq> None"
    unfolding find_None_iff by blast
  then show ?thesis by (auto simp: findUser_def)
qed

lemma createPasswordResetToken_fresh:
  assumes "findUser d uid = Some u'"
    and "\<forall>r \<in> set (passwordResetTokens d). pr_userId r \<noteq> uid \<longrightarrow> pr_token r \<noteq> tok"
  shows "\<exists>row d1. createPasswordResetToken d ms tok uid = (Inr (row, u'), d1)
           \<and> row \<in> set (passwordResetTokens d1) \<and> pr_token row = tok
           \<and> pr_usedAt row = None \<and> pr_expiresAt row = ms + 3600000"
proof -
  have "\<not> (\<exists>r \<in> set (filter (\<lambda>r. \<not> pr_userId r = uid) (passwordResetTokens d)).
              pr_token r = tok)"
    using assms(2) by auto
  with assms(1) show ?thesis
    by (simp add: createPasswordResetToken_def Let_def findUser_def)
qed

text \<open>
  C4 (as the code has it).  \<open>POST /auth/forgot-password\<close> answers 200 when no account
  has the email (and changes nothing), and when an account has it, the token string is
  fresh and the email is sent.  When the send fails for an existing account, the
  handler raises a \<open>ValidationError\<close> and the answer is 400; the reset token has been
  issued all the same.
\<close>

theorem forgot_password_status:
  "(findByEmail (w_db w) email = None \<longrightarrow>
      forgot_password_handler w ms tok mail_ok email =
        (Inr (Message
           ''If an account with that email exists, we have sent a password reset link.''), w)
      \<and> http_status (fst (forgot_password_handler w ms tok mail_ok email)) = 200)
   \<and> (findByEmail (w_db w) email = Some u
       \<and> (\<forall>r \<in> set (passwordResetTokens (w_db w)). pr_userId r \<noteq> u_id u \<longrightarrow> pr_token r \<noteq> tok)
       \<longrightarrow>
         (mail_ok \<longrightarrow> http_status (fst (forgot_password_handler w ms tok mail_ok email)) = 200)
         \<and> (\<not> mail_ok \<longrightarrow>
               fst (forgot_password_handler w ms tok mail_ok email)
                 = Inl (ValidationError ''Failed to send password reset email'')
               \<and> http_status (fst (forgot_password_handler w ms tok mail_ok email)) = 400)
         \<and> has_live (w_db (snd (forgot_password_handler w ms tok mail_ok email))) ms tok
              PASSWORD_RESET)"
proof (intro conjI impI)
  assume "findByEmail (w_db w) email = None"
  then show "forgot_password_handler w ms tok mail_ok email =
        (Inr (Message
           ''If an account with that email exists, we have sent a password reset link.''), w)"
    and "http_status (fst (forgot_password_handler w ms tok mail_ok email)) = 200"
    by (simp_all add: forgot_password_handler_def http_status_def)
next
  assume a: "findByEmail (w_db w) email = Some u
       \<and> (\<forall>r \<in> set (passwordResetTokens (w_db w)). pr_userId r \<noteq> u_id u \<longrightarrow> pr_token r \<noteq> tok)"
  then obtain u' where u': "findUser (w_db w) (u_id u) = Some u'"
    using findByEmail_findUser by blast
  from createPasswordResetToken_fresh [OF u', of tok ms] a obtain row d1 where
    c: "createPasswordResetToken (w_db w) ms tok (u_id u) = (Inr (row, u'), d1)"
    and row: "row \<in> set (passwordResetTokens d1)" "pr_token row = tok"
             "pr_usedAt row = None" "pr_expiresAt row = ms + 3600000"
    by blast
  from row have live: "has_live d1 ms tok PASSWORD_RESET"
    by (auto simp: has_live_def pr_live_def)
  {
    assume "mail_ok"
    with a c show "http_status (fst (forgot_password_handler w ms tok mail_ok email)) = 200"
      by (simp add: forgot_password_handler_def http_status_def)
  }
  {
    assume "\<not> mail_ok"
    with a c show "fst (forgot_password_handler w ms tok mail_ok email)
                 = Inl (ValidationError ''Failed to send password reset email'')"
      and "http_status (fst (forgot_password_handler w ms tok mail_ok email)) = 400"
      by (simp_all add: forgot_password_handler_def http_status_def)
  }
  from a c live show "has_live (w_db (snd (forgot_password_handler w ms tok mail_ok email)))
                        ms tok PASSWORD_RESET"
    by (cases mail_ok) (simp_all add: forgot_password_handler_def)
qed

theorem forgot_password_status_witness:
  "http_status (fst (forgot_password_handler world0 1000 ''ff66'' True ''nobody@x.com'')) = 200
   \<and> http_status (fst (forgot_password_handler world0 1000 ''ff66'' True ''alice@x.com'')) = 200
   \<and> http_status (fst (forgot_password_handler world0 1000 ''ff66'' False ''alice@x.com'')) = 400"
proof -
  have n: "findByEmail (w_db world0) ''nobody@x.com'' = None"
    by (simp add: findByEmail_def world0_def db1_def db0_def alice_def bob_def)
  have a: "findByEmail (w_db world0) ''alice@x.com'' = Some alice"
    by (simp add: findByEmail_def world0_def db1_def db0_def alice_def bob_def)
  have f: "\<forall>r \<in> set (passwordResetTokens (w_db world0)).
             pr_userId r \<noteq> u_id alice \<longrightarrow> pr_token r \<noteq> ''ff66''"
    by (simp add: world0_def db1_def db0_def)
  from forgot_password_status [of world0 "''nobody@x.com''" 1000 "''ff66''" True] n
  have 1: "http_status (fst (forgot_password_handler world0 1000 ''ff66'' True ''nobody@x.com''))
             = 200" by blast
  from forgot_password_status [of world0 "''alice@x.com''" 1000 "''ff66''" True alice] a f
  have 2: "http_status (fst (forgot_password_handler world0 1000 ''ff66'' True ''alice@x.com''))
             = 200" by blast
  from forgot_password_status [of world0 "''alice@x.com''" 1000 "''ff66''" False alice] a f
  have 3: "http_status (fst (forgot_password_handler world0 1000 ''ff66'' False ''alice@x.com''))
             = 400" by blast
  from 1 2 3 show ?thesis by simp
qed

text \<open>
  The email send fails: the request for an existing account is answered 400, the
  request for an unknown address 200.
\<close>

theorem forgot_password_counterexample:
  "http_status (fst (forgot_password_handler world0 1000 ''ff66'' False ''bob@x.com'')) = 400
   \<and> http_status (fst (forgot_password_handler world0 1000 ''ff66'' False ''nobody@x.com'')) = 200"
  by (simp add: forgot_password_handler_def findByEmail_def createPasswordResetToken_def
        Let_def findUser_def world0_def db1_def db0_def alice_def bob_def http_status_def)

section \<open>Properties of BookService and the book routes\<close>






















end
